(* ===== verification/Prelude.thy ===== *)
theory Prelude
  imports Main
begin

text \<open>
  Shared vocabulary of the development: the collections of rewrite rules the
  component theories add to, the decimal rendering of natural numbers that
  JavaScript's template literals perform (\<open>`${n}`\<close> in
  \<^verbatim>\<open>src/app/api/amazon/collect/route.ts\<close>) together with its inverse, and
  generic lemmas on options and maps used by several components, and the fact
  that a non-increasing sequence of naturals stabilises (the core of the
  lifecycle's termination argument).
\<close>

named_theorems model_simps \<open>evaluation rules of the executable model, used by witnesses\<close>
named_theorems wf_intros \<open>well-formedness facts about the store and its jobs\<close>

section \<open>Decimal rendering of naturals\<close>

text \<open>
  \<open>show_nat\<close> is \<open>String(n)\<close> for a non-negative integer: the decimal digits,
  most significant first, no sign and no leading zeros.
\<close>

definition digit_char :: "nat \<Rightarrow> char" where
  "digit_char d = char_of (48 + d)"

fun show_nat :: "nat \<Rightarrow> string" where
  "show_nat n =
     (if n < 10 then [digit_char n] else show_nat (n div 10) @ [digit_char (n mod 10)])"

declare show_nat.simps [simp del]

definition is_digit :: "char \<Rightarrow> bool" where
  "is_digit c \<longleftrightarrow> (48::nat) \<le> of_char c \<and> of_char c < (58::nat)"

fun parse_digits :: "nat \<Rightarrow> string \<Rightarrow> nat" where
  "parse_digits acc [] = acc"
| "parse_digits acc (c # cs) = parse_digits (10 * acc + (of_char c - 48)) cs"

definition parse_nat :: "string \<Rightarrow> nat option" where
  "parse_nat s = (if s \<noteq> [] \<and> list_all is_digit s then Some (parse_digits 0 s) else None)"

lemma digit_char_simps [simp, model_simps]:
  "digit_char 0 = CHR ''0''" "digit_char 1 = CHR ''1''" "digit_char 2 = CHR ''2''"
  "digit_char 3 = CHR ''3''" "digit_char 4 = CHR ''4''" "digit_char 5 = CHR ''5''"
  "digit_char 6 = CHR ''6''" "digit_char 7 = CHR ''7''" "digit_char 8 = CHR ''8''"
  "digit_char 9 = CHR ''9''" "digit_char (Suc 0) = CHR ''1''"
  by (simp_all only: digit_char_def numeral_plus_numeral add_0_right add.commute[of 48 1]; code_simp)+

lemma of_char_digit_char [simp]: "d < 10 \<Longrightarrow> of_char (digit_char d) = 48 + d"
  by (simp add: digit_char_def)

lemma is_digit_digit_char [simp]: "d < 10 \<Longrightarrow> is_digit (digit_char d)"
  by (simp add: is_digit_def)

lemma show_nat_small [model_simps]: "n < 10 \<Longrightarrow> show_nat n = [digit_char n]"
  by (simp add: show_nat.simps)

lemma show_nat_large [model_simps]:
  "\<not> n < 10 \<Longrightarrow> show_nat n = show_nat (n div 10) @ [digit_char (n mod 10)]"
  by (subst show_nat.simps) simp

lemma show_nat_nonempty [simp]: "show_nat n \<noteq> []"
  by (cases "n < 10") (simp_all add: show_nat_small show_nat_large)

lemma show_nat_digits: "list_all is_digit (show_nat n)"
proof (induction n rule: show_nat.induct)
  case (1 n)
  then show ?case
    by (cases "n < 10") (simp_all add: show_nat_small show_nat_large)
qed

lemma parse_digits_snoc:
  "parse_digits acc (cs @ [c]) = 10 * parse_digits acc cs + (of_char c - 48)"
  by (induction cs arbitrary: acc) simp_all

lemma parse_digits_show_nat: "parse_digits 0 (show_nat n) = n"
proof (induction n rule: show_nat.induct)
  case (1 n)
  show ?case
  proof (cases "n < 10")
    case True
    then show ?thesis by (simp add: show_nat_small)
  next
    case False
    then have "parse_digits 0 (show_nat (n div 10)) = n div 10"
      using "1.IH" by simp
    with False show ?thesis
      by (simp add: show_nat_large parse_digits_snoc)
  qed
qed

text \<open>The rendering is decoded by \<open>parse_nat\<close>, hence injective.\<close>

lemma parse_nat_show_nat [simp]: "parse_nat (show_nat n) = Some n"
  by (simp add: parse_nat_def show_nat_digits parse_digits_show_nat)

lemma show_nat_inject [simp]: "show_nat m = show_nat n \<longleftrightarrow> m = n"
  by (metis option.inject parse_nat_show_nat)

section \<open>Options and maps\<close>

lemma map_upd_Some_iff:
  "(m(k \<mapsto> v)) k' = Some v' \<longleftrightarrow> (k' = k \<and> v' = v) \<or> (k' \<noteq> k \<and> m k' = Some v')"
  by auto

lemma dom_map_upd_fresh: "k \<notin> dom m \<Longrightarrow> m k = None"
  by auto

section \<open>Sequences of naturals\<close>

text \<open>A non-increasing sequence of naturals is eventually constant, from any starting index on.\<close>

lemma antimono_nat_stabilises:
  fixes g :: "nat \<Rightarrow> nat"
  assumes "\<And>n. g (Suc n) \<le> g n"
  shows "\<exists>M\<ge>N. \<forall>n\<ge>M. g n = g M"
proof -
  have "\<And>N. g N \<le> k \<Longrightarrow> \<exists>M\<ge>N. \<forall>n\<ge>M. g n = g M" for k
  proof (induction k)
    case 0
    then show ?case using lift_Suc_antimono_le [of g, OF assms] by (metis le_0_eq order_refl)
  next
    case (Suc k N)
    show ?case
    proof (cases "\<forall>n\<ge>N. g n = g N")
      case True
      then show ?thesis by blast
    next
      case False
      then obtain n where n: "n \<ge> N" "g n \<noteq> g N" by blast
      then have "g n < g N" using lift_Suc_antimono_le [of g, OF assms] by (simp add: order_less_le)
      with Suc.prems have "g n \<le> k" by simp
      from Suc.IH [OF this] n(1) show ?thesis by (meson order_trans)
    qed
  qed
  then show ?thesis by blast
qed

end
