(* ===== verification/Json.thy ===== *)
theory Json
  imports Prelude
begin

text \<open>
  JSON values as the route handlers see them: the parsed request body
  (\<open>await req.json()\<close>) and the payloads given to \<open>NextResponse.json\<close>.
  Objects are association lists in source order; reading a property follows
  \<open>JSON.parse\<close>, where a later duplicate key overrides an earlier one. Numbers
  are integers, the only numbers the handlers produce. A response is its HTTP
  status and JSON body.
\<close>

datatype json =
    JNull
  | JBool bool
  | JNum int
  | JStr string
  | JArr "json list"
  | JObj "(string \<times> json) list"

text \<open>\<open>obj[key]\<close> on a parsed object; \<open>None\<close> is \<open>undefined\<close>.\<close>

fun json_get :: "json \<Rightarrow> string \<Rightarrow> json option" where
  "json_get (JObj fs) k = map_of (rev fs) k"
| "json_get _ k = None"

text \<open>The type name zod reports as \<open>received\<close> for a value.\<close>

fun json_type_name :: "json \<Rightarrow> string" where
  "json_type_name JNull = ''null''"
| "json_type_name (JBool _) = ''boolean''"
| "json_type_name (JNum _) = ''number''"
| "json_type_name (JStr _) = ''string''"
| "json_type_name (JArr _) = ''array''"
| "json_type_name (JObj _) = ''object''"

text \<open>Optional values: \<open>null\<close> in a JSON payload.\<close>

definition json_opt :: "('a \<Rightarrow> json) \<Rightarrow> 'a option \<Rightarrow> json" where
  "json_opt f x = (case x of None \<Rightarrow> JNull | Some v \<Rightarrow> f v)"

definition json_nat :: "nat \<Rightarrow> json" where
  "json_nat n = JNum (int n)"

record response =
  http_status :: nat
  http_body :: json

text \<open>\<open>NextResponse.json(body, {status})\<close>; without options the status is 200.\<close>

definition json_response :: "json \<Rightarrow> nat \<Rightarrow> response" where
  "json_response b s = \<lparr>http_status = s, http_body = b\<rparr>"

text \<open>\<open>{error: e}\<close> and \<open>{error: e, message: m}\<close>, the error payloads of both handlers.\<close>

definition error_body :: "string \<Rightarrow> json" where
  "error_body e = JObj [(''error'', JStr e)]"

definition internal_error :: "string \<Rightarrow> response" where
  "internal_error msg =
     json_response (JObj [(''error'', JStr ''Internal server error''), (''message'', JStr msg)]) 500"

lemma json_get_JObj_last [simp]: "json_get (JObj (fs @ [(k, v)])) k = Some v"
  by simp

lemma json_response_sel [simp]:
  "http_status (json_response b s) = s" "http_body (json_response b s) = b"
  by (simp_all add: json_response_def)

lemma internal_error_status [simp]: "http_status (internal_error m) = 500"
  by (simp add: internal_error_def)

declare json_opt_def [model_simps] json_nat_def [model_simps] error_body_def [model_simps]
  internal_error_def [model_simps]

end
