(* ===== verification/Validation.thy ===== *)
theory Validation
  imports Json
begin

text \<open>
  The request schema of the trigger endpoint, \<open>collectRequestSchema\<close> in
  \<^verbatim>\<open>src/app/api/amazon/collect/route.ts\<close> (lines 7--11), and zod's
  \<open>safeParse\<close> on it: the body must be an object; \<open>keywords\<close> a string of at
  least one character; \<open>category\<close> absent or a string; \<open>method\<close> absent
  (defaulting to \<open>"api"\<close>) or one of \<open>"api"\<close>, \<open>"scraping"\<close>. zod reports
  every failing field, in the schema's key order, each issue with its code,
  path and default message; unknown keys are dropped.
\<close>

datatype collect_method = Api | Scraping

definition method_name :: "collect_method \<Rightarrow> string" where
  "method_name m = (case m of Api \<Rightarrow> ''api'' | Scraping \<Rightarrow> ''scraping'')"

record collect_request =
  req_keywords :: string
  req_category :: "string option"
  req_method :: collect_method

datatype zod_code = Invalid_type | Too_small | Invalid_enum_value

record zod_issue =
  issue_code :: zod_code
  issue_path :: "string list"
  issue_message :: string

definition zod_issue :: "zod_code \<Rightarrow> string list \<Rightarrow> string \<Rightarrow> zod_issue" where
  "zod_issue c p m = \<lparr>issue_code = c, issue_path = p, issue_message = m\<rparr>"

text \<open>\<open>keywords: z.string().min(1)\<close>\<close>

definition keywords_schema :: "json option \<Rightarrow> zod_issue list + string" where
  "keywords_schema v =
     (case v of
        None \<Rightarrow> Inl [zod_issue Invalid_type [''keywords''] ''Required'']
      | Some (JStr s) \<Rightarrow>
          (if length s < 1
           then Inl [zod_issue Too_small [''keywords''] ''String must contain at least 1 character(s)'']
           else Inr s)
      | Some j \<Rightarrow> Inl [zod_issue Invalid_type [''keywords'']
                        (''Expected string, received '' @ json_type_name j)])"

text \<open>\<open>category: z.string().optional()\<close>\<close>

definition category_schema :: "json option \<Rightarrow> zod_issue list + string option" where
  "category_schema v =
     (case v of
        None \<Rightarrow> Inr None
      | Some (JStr s) \<Rightarrow> Inr (Some s)
      | Some j \<Rightarrow> Inl [zod_issue Invalid_type [''category'']
                        (''Expected string, received '' @ json_type_name j)])"

text \<open>\<open>method: z.enum(["api", "scraping"]).default("api")\<close>\<close>

definition method_schema :: "json option \<Rightarrow> zod_issue list + collect_method" where
  "method_schema v =
     (case v of
        None \<Rightarrow> Inr Api
      | Some (JStr s) \<Rightarrow>
          (if s = ''api'' then Inr Api
           else if s = ''scraping'' then Inr Scraping
           else Inl [zod_issue Invalid_enum_value [''method'']
                      (''Invalid enum value. Expected 'api' | 'scraping', received '' @ [CHR 0x27] @ s @ [CHR 0x27])])
      | Some j \<Rightarrow> Inl [zod_issue Invalid_type [''method'']
                        (''Expected 'api' | 'scraping', received '' @ json_type_name j)])"

definition issues_of :: "zod_issue list + 'a \<Rightarrow> zod_issue list" where
  "issues_of r = (case r of Inl is \<Rightarrow> is | Inr _ \<Rightarrow> [])"

text \<open>\<open>collectRequestSchema.safeParse(body)\<close>: \<open>Inl\<close> is \<open>success: false\<close> with its issues.\<close>

definition safe_parse :: "json \<Rightarrow> zod_issue list + collect_request" where
  "safe_parse body =
     (case body of
        JObj _ \<Rightarrow>
          (let k = keywords_schema (json_get body ''keywords'');
               c = category_schema (json_get body ''category'');
               m = method_schema (json_get body ''method'')
           in case (k, c, m) of
                (Inr kw, Inr cat, Inr mt) \<Rightarrow> Inr \<lparr>req_keywords = kw, req_category = cat, req_method = mt\<rparr>
              | _ \<Rightarrow> Inl (issues_of k @ issues_of c @ issues_of m))
      | _ \<Rightarrow> Inl [zod_issue Invalid_type [] (''Expected object, received '' @ json_type_name body)])"

text \<open>The issue as it appears in \<open>details\<close> of the 400 response.\<close>

definition zod_code_name :: "zod_code \<Rightarrow> string" where
  "zod_code_name c =
     (case c of Invalid_type \<Rightarrow> ''invalid_type'' | Too_small \<Rightarrow> ''too_small''
      | Invalid_enum_value \<Rightarrow> ''invalid_enum_value'')"

definition issue_json :: "zod_issue \<Rightarrow> json" where
  "issue_json i =
     JObj [(''code'', JStr (zod_code_name (issue_code i))),
           (''path'', JArr (map JStr (issue_path i))),
           (''message'', JStr (issue_message i))]"

text \<open>The body a client sends for a request (used by the witnesses).\<close>

definition request_json :: "collect_request \<Rightarrow> json" where
  "request_json r =
     JObj ([(''keywords'', JStr (req_keywords r))]
           @ (case req_category r of None \<Rightarrow> [] | Some c \<Rightarrow> [(''category'', JStr c)])
           @ [(''method'', JStr (method_name (req_method r)))])"

lemmas schema_defs [model_simps] = keywords_schema_def category_schema_def method_schema_def
  issues_of_def zod_issue_def method_name_def

lemma keywords_schema_Inr: "keywords_schema v = Inr s \<longleftrightarrow> v = Some (JStr s) \<and> s \<noteq> []"
  by (auto simp: keywords_schema_def split: option.splits json.splits if_splits)

lemma category_schema_Inr:
  "category_schema v = Inr c \<longleftrightarrow> (v = None \<and> c = None) \<or> (\<exists>s. v = Some (JStr s) \<and> c = Some s)"
  by (auto simp: category_schema_def split: option.splits json.splits)

lemma method_schema_Inr:
  "method_schema v = Inr m \<longleftrightarrow>
     (v = None \<and> m = Api) \<or> v = Some (JStr (method_name m))"
  by (cases m) (auto simp: method_schema_def method_name_def split: option.splits json.splits if_splits)

lemma schema_Inl_nonempty:
  "keywords_schema v = Inl is \<Longrightarrow> is \<noteq> []"
  "category_schema v = Inl is' \<Longrightarrow> is' \<noteq> []"
  "method_schema v = Inl is'' \<Longrightarrow> is'' \<noteq> []"
  by (auto simp: schema_defs split: option.splits json.splits if_splits)

lemma method_name_inject [simp]: "method_name a = method_name b \<longleftrightarrow> a = b"
  by (cases a; cases b) (simp_all add: method_name_def)

lemma map_option_JStr_inject [simp]: "map_option JStr a = map_option JStr b \<longleftrightarrow> a = b"
  by (cases a; cases b) simp_all

lemma category_schema_Inr':
  "category_schema v = Inr c \<longleftrightarrow> v = map_option JStr c"
  by (cases c) (auto simp: category_schema_Inr)

lemma schema_accepts:
  "s \<noteq> [] \<Longrightarrow> keywords_schema (Some (JStr s)) = Inr s"
  "category_schema (map_option JStr c) = Inr c"
  "method_schema (Some (JStr (method_name m))) = Inr m"
  "method_schema None = Inr Api"
  by (simp add: keywords_schema_Inr category_schema_Inr' method_schema_Inr)+

lemma safe_parse_JObj:
  "safe_parse (JObj fs) =
     (case (keywords_schema (json_get (JObj fs) ''keywords''),
            category_schema (json_get (JObj fs) ''category''),
            method_schema (json_get (JObj fs) ''method'')) of
        (Inr kw, Inr cat, Inr mt) \<Rightarrow> Inr \<lparr>req_keywords = kw, req_category = cat, req_method = mt\<rparr>
      | (k, c, m) \<Rightarrow> Inl (issues_of k @ issues_of c @ issues_of m))"
  by (simp add: safe_parse_def split: sum.splits prod.splits)

subsection \<open>Properties of the schema\<close>

text \<open>
  C27: the schema accepts a body exactly when it is an object whose
  \<open>keywords\<close> is a non-empty string, whose \<open>category\<close> is absent or a string,
  and whose \<open>method\<close> is absent (then the request uses \<open>api\<close>) or names one
  of the two strategies; the parsed request carries exactly these values.
\<close>

theorem safe_parse_Inr_iff:
  "safe_parse b = Inr r \<longleftrightarrow>
     (\<exists>fs. b = JObj fs) \<and>
     json_get b ''keywords'' = Some (JStr (req_keywords r)) \<and> req_keywords r \<noteq> [] \<and>
     json_get b ''category'' = map_option JStr (req_category r) \<and>
     (json_get b ''method'' = None \<and> req_method r = Api \<or>
      json_get b ''method'' = Some (JStr (method_name (req_method r))))"
proof (cases b)
  case (JObj fs)
  show ?thesis
    unfolding JObj safe_parse_JObj
    by (cases r) (auto simp: keywords_schema_Inr category_schema_Inr' method_schema_Inr
        schema_accepts split: sum.splits)
qed (simp_all add: safe_parse_def)

text \<open>
  A rejected body is always explained: \<open>validation.error.errors\<close>, sent
  as \<open>details\<close> of the 400 response, is never empty.
\<close>

lemma safe_parse_Inl_nonempty:
  "safe_parse b = Inl issues \<Longrightarrow> issues \<noteq> []"
proof (cases b)
  case (JObj fs)
  assume "safe_parse b = Inl issues"
  then show ?thesis unfolding JObj safe_parse_JObj
    by (auto simp: issues_of_def dest: schema_Inl_nonempty split: sum.splits)
qed (auto simp: safe_parse_def)

end
