(* ===== verification/Collectors.thy ===== *)
theory Collectors
  imports Validation
begin

text \<open>
  The two acquisition strategies behind \<open>dataService.collectBooksViaApi\<close> and
  \<open>dataService.collectBooksViaScraping\<close> (route.ts lines 48--51). Their code,
  \<^verbatim>\<open>@/libs/amazon/service\<close>, is not part of the repository's \<^verbatim>\<open>src/\<close>: they
  are modelled from the spec (sections 4.1 and 7). The marketplace is the outside
  world: it is an input that answers each query with an API response or a
  result page, and each strategy turns that answer into book records or one of
  its errors. A strategy keeps no state between invocations.
\<close>

record book =
  title :: string
  book_category :: "string option"
  asin :: string

datatype collect_error =
    UpstreamError string
  | RateLimitError string
  | ParseError string
  | InvalidQueryError string

text \<open>What the marketplace's structured API can answer.\<close>

datatype api_response =
    ApiOk "book list"
  | ApiThrottled
  | ApiRejected string
  | ApiHttpError nat

text \<open>What fetching a result page can give: \<open>PageOk None\<close> is a page whose structure the parser does not recognise.\<close>

datatype page_response =
    PageOk "book list option"
  | PageBlocked
  | PageHttpError nat
  | PageNetworkError string

record marketplace =
  api_source :: "string \<Rightarrow> string option \<Rightarrow> api_response"
  page_source :: "string \<Rightarrow> string option \<Rightarrow> page_response"
  latency :: nat

definition api_collect :: "api_response \<Rightarrow> collect_error + book list" where
  "api_collect r =
     (case r of
        ApiOk bs \<Rightarrow> Inr bs
      | ApiThrottled \<Rightarrow> Inl (RateLimitError ''marketplace API throttled the request'')
      | ApiRejected why \<Rightarrow> Inl (InvalidQueryError why)
      | ApiHttpError code \<Rightarrow> Inl (UpstreamError (''marketplace API returned HTTP '' @ show_nat code)))"

definition scrape_collect :: "page_response \<Rightarrow> collect_error + book list" where
  "scrape_collect r =
     (case r of
        PageOk (Some bs) \<Rightarrow> Inr bs
      | PageOk None \<Rightarrow> Inl (ParseError ''unrecognised result page structure'')
      | PageBlocked \<Rightarrow> Inl (RateLimitError ''anti-automation response'')
      | PageHttpError code \<Rightarrow> Inl (UpstreamError (''result page returned HTTP '' @ show_nat code))
      | PageNetworkError why \<Rightarrow> Inl (UpstreamError why))"

text \<open>
  \<open>method === "api" ? collectBooksViaApi(...) : collectBooksViaScraping(...)\<close>:
  the one capability \<open>collect\<close>, dispatched on the request's method.
\<close>

definition collect :: "collect_method \<Rightarrow> marketplace \<Rightarrow> string \<Rightarrow> string option \<Rightarrow> collect_error + book list" where
  "collect m mk kw cat =
     (if m = Api then api_collect (api_source mk kw cat)
      else scrape_collect (page_source mk kw cat))"

text \<open>The stringified cause recorded as the job's \<open>errorMessage\<close>.\<close>

definition show_collect_error :: "collect_error \<Rightarrow> string" where
  "show_collect_error e =
     (case e of
        UpstreamError m \<Rightarrow> ''UpstreamError: '' @ m
      | RateLimitError m \<Rightarrow> ''RateLimitError: '' @ m
      | ParseError m \<Rightarrow> ''ParseError: '' @ m
      | InvalidQueryError m \<Rightarrow> ''InvalidQueryError: '' @ m)"

definition is_rate_limit :: "collect_error \<Rightarrow> bool" where
  "is_rate_limit e = (case e of RateLimitError _ \<Rightarrow> True | _ \<Rightarrow> False)"

lemmas collector_defs [model_simps] = api_collect_def scrape_collect_def collect_def
  show_collect_error_def

lemma collect_Api [simp]: "collect Api mk kw cat = api_collect (api_source mk kw cat)"
  by (simp add: collect_def)

lemma collect_Scraping [simp]: "collect Scraping mk kw cat = scrape_collect (page_source mk kw cat)"
  by (simp add: collect_def)

end
