(* ===== verification/JobStore.thy ===== *)
theory JobStore
  imports Collectors
begin

text \<open>
  The Job Store: the \<^verbatim>\<open>data_collection_jobs\<close> table behind both handlers
  (the GET handler reads it at route.ts lines 103--108; the data service writes
  it). Its writer is outside \<^verbatim>\<open>src/\<close>, so \<open>create\<close>, \<open>get\<close> and \<open>update\<close>
  follow the contract of spec section 4.2. The table is a list of rows in
  insertion order; a row is a \<open>job\<close> record with the table's columns. The
  store also holds the id counter, the server clock that stamps the
  timestamps, and whether the database is reachable. Every operation passes the
  store along and returns its result as \<open>store_error + 'a\<close>.
\<close>

section \<open>Job status and its order\<close>

datatype job_status = Pending | Running | Completed | Failed

text \<open>The lifecycle order: \<open>pending \<le> running \<le> completed\<close> and \<open>running \<le> failed\<close>; the two terminal states are incomparable.\<close>

instantiation job_status :: order
begin

definition less_eq_job_status :: "job_status \<Rightarrow> job_status \<Rightarrow> bool" where
  "less_eq_job_status a b \<longleftrightarrow>
     a = b \<or> a = Pending \<or> (a = Running \<and> (b = Completed \<or> b = Failed))"

definition less_job_status :: "job_status \<Rightarrow> job_status \<Rightarrow> bool" where
  "less_job_status a b \<longleftrightarrow> a \<le> b \<and> a \<noteq> b"

instance
proof
  fix x y z :: job_status
  show "(x < y) = (x \<le> y \<and> \<not> y \<le> x)"
    by (cases x; cases y) (auto simp: less_eq_job_status_def less_job_status_def)
  show "x \<le> x" by (simp add: less_eq_job_status_def)
  show "x \<le> y \<Longrightarrow> y \<le> z \<Longrightarrow> x \<le> z"
    by (cases x; cases y; cases z) (auto simp: less_eq_job_status_def)
  show "x \<le> y \<Longrightarrow> y \<le> x \<Longrightarrow> x = y"
    by (cases x; cases y) (auto simp: less_eq_job_status_def)
qed

end

definition terminal :: "job_status \<Rightarrow> bool" where
  "terminal s \<longleftrightarrow> s = Completed \<or> s = Failed"

text \<open>The single forward steps of the lifecycle.\<close>

fun status_step :: "job_status \<Rightarrow> job_status \<Rightarrow> bool" where
  "status_step Pending Running = True"
| "status_step Running Completed = True"
| "status_step Running Failed = True"
| "status_step _ _ = False"

section \<open>Rows and the table\<close>

record job_params =
  param_keywords :: string
  param_category :: "string option"

record job =
  job_id :: string
  job_type :: collect_method
  status :: job_status
  category_id :: "string option"
  parameters :: job_params
  books_collected :: nat
  error_message :: "string option"
  started_at :: "nat option"
  completed_at :: "nat option"
  created_at :: nat

record job_store =
  jobs :: "job list"
  next_seq :: nat
  now :: nat
  online :: bool

datatype store_error = NotFound | InvalidTransition | StoreUnavailable

type_synonym 'a store_op = "job_store \<Rightarrow> (store_error + 'a) \<times> job_store"

text \<open>A patch moves a job to a target status and may set the count, the error
  text and the two timestamps (stamped with the store clock).\<close>

record job_patch =
  p_status :: job_status
  p_books :: "nat option"
  p_error :: "string option"
  p_start :: bool
  p_complete :: bool

definition empty_store :: job_store where
  "empty_store = \<lparr>jobs = [], next_seq = 0, now = 0, online = True\<rparr>"

definition lookup_job :: "string \<Rightarrow> job_store \<Rightarrow> job option" where
  "lookup_job i s = find (\<lambda>j. job_id j = i) (jobs s)"

definition new_job :: "string \<Rightarrow> collect_method \<Rightarrow> job_params \<Rightarrow> string option \<Rightarrow> nat \<Rightarrow> job" where
  "new_job i jt ps cat t =
     \<lparr>job_id = i, job_type = jt, status = Pending, category_id = cat, parameters = ps,
      books_collected = 0, error_message = None, started_at = None, completed_at = None,
      created_at = t\<rparr>"

text \<open>\<open>create(jobType, parameters, categoryId)\<close>: a fresh id from the counter, status pending, \<open>createdAt = now\<close>.\<close>

definition store_create :: "collect_method \<Rightarrow> job_params \<Rightarrow> string option \<Rightarrow> job store_op" where
  "store_create jt ps cat s =
     (if \<not> online s then (Inl StoreUnavailable, s)
      else let j = new_job (show_nat (next_seq s)) jt ps cat (now s)
           in (Inr j, s\<lparr>jobs := jobs s @ [j], next_seq := Suc (next_seq s)\<rparr>))"

text \<open>\<open>get(id)\<close>: exact lookup.\<close>

definition store_get :: "string \<Rightarrow> job store_op" where
  "store_get i s =
     (if \<not> online s then (Inl StoreUnavailable, s)
      else case lookup_job i s of None \<Rightarrow> (Inl NotFound, s) | Some j \<Rightarrow> (Inr j, s))"

definition patch_allowed :: "job \<Rightarrow> job_patch \<Rightarrow> bool" where
  "patch_allowed j p \<longleftrightarrow>
     status_step (status j) (p_status p)
     \<and> (p_complete p \<longrightarrow> terminal (p_status p))
     \<and> (p_error p \<noteq> None \<longrightarrow> p_status p = Failed)"

definition apply_patch :: "nat \<Rightarrow> job_patch \<Rightarrow> job \<Rightarrow> job" where
  "apply_patch t p j =
     j\<lparr>status := p_status p,
       books_collected := (case p_books p of None \<Rightarrow> books_collected j | Some n \<Rightarrow> n),
       error_message := (case p_error p of None \<Rightarrow> error_message j | Some e \<Rightarrow> Some e),
       started_at := (if p_start p then Some t else started_at j),
       completed_at := (if p_complete p then Some t else completed_at j)\<rparr>"

definition replace_job :: "job \<Rightarrow> job list \<Rightarrow> job list" where
  "replace_job j' js = map (\<lambda>j. if job_id j = job_id j' then j' else j) js"

text \<open>
  \<open>update(id, patch)\<close>: a duplicate transition to the job's current state is a
  no-op; a transition that is not one forward step, that sets \<open>completedAt\<close>
  on a non-terminal state, or that sets \<open>errorMessage\<close> on a state other than
  failed is rejected with \<open>InvalidTransition\<close> and changes nothing.
\<close>

definition store_update :: "string \<Rightarrow> job_patch \<Rightarrow> job store_op" where
  "store_update i p s =
     (if \<not> online s then (Inl StoreUnavailable, s)
      else case lookup_job i s of
        None \<Rightarrow> (Inl NotFound, s)
      | Some j \<Rightarrow>
          (if p_status p = status j then (Inr j, s)
           else if \<not> patch_allowed j p then (Inl InvalidTransition, s)
           else let j' = apply_patch (now s) p j
                in (Inr j', s\<lparr>jobs := replace_job j' (jobs s)\<rparr>)))"

text \<open>The environment: time passes, the database goes away and comes back.\<close>

definition store_tick :: "nat \<Rightarrow> job_store \<Rightarrow> job_store" where
  "store_tick d s = s\<lparr>now := now s + d\<rparr>"

definition store_set_online :: "bool \<Rightarrow> job_store \<Rightarrow> job_store" where
  "store_set_online b s = s\<lparr>online := b\<rparr>"

section \<open>Well-formedness of rows and of the table\<close>

definition stamp_ok :: "nat \<Rightarrow> nat option \<Rightarrow> nat \<Rightarrow> bool" where
  "stamp_ok c x t = (case x of None \<Rightarrow> True | Some v \<Rightarrow> c \<le> v \<and> v \<le> t)"

text \<open>The field constraints of spec section 3 for a row, at clock \<open>t\<close>.\<close>

definition job_wf :: "nat \<Rightarrow> job \<Rightarrow> bool" where
  "job_wf t j \<longleftrightarrow>
     (\<not> terminal (status j) \<longrightarrow> completed_at j = None)
     \<and> (status j = Pending \<longrightarrow> started_at j = None)
     \<and> (error_message j \<noteq> None \<longrightarrow> status j = Failed)
     \<and> created_at j \<le> t
     \<and> stamp_ok (created_at j) (started_at j) t
     \<and> stamp_ok (created_at j) (completed_at j) t
     \<and> (case (started_at j, completed_at j) of (Some x, Some y) \<Rightarrow> x \<le> y | _ \<Rightarrow> True)"

definition issued_id :: "nat \<Rightarrow> string \<Rightarrow> bool" where
  "issued_id k i = (case parse_nat i of None \<Rightarrow> False | Some n \<Rightarrow> n < k)"

text \<open>Ids are distinct and were issued by the counter; every row is well formed.\<close>

definition store_wf :: "job_store \<Rightarrow> bool" where
  "store_wf s \<longleftrightarrow>
     distinct (map job_id (jobs s))
     \<and> list_all (issued_id (next_seq s)) (map job_id (jobs s))
     \<and> list_all (job_wf (now s)) (jobs s)"

text \<open>The abstract view of the table: a map from ids to rows.\<close>

definition job_map :: "job_store \<Rightarrow> string \<rightharpoonup> job" where
  "job_map s = map_of (map (\<lambda>j. (job_id j, j)) (jobs s))"


text \<open>A small concrete table used by the witnesses below.\<close>

abbreviation demo_params :: job_params where
  "demo_params \<equiv> \<lparr>param_keywords = ''gardening'', param_category = None\<rparr>"

abbreviation demo_job :: job where
  "demo_job \<equiv> new_job ''0'' Api demo_params None 0"

abbreviation demo_store1 :: job_store where
  "demo_store1 \<equiv> \<lparr>jobs = [demo_job], next_seq = 1, now = 0, online = True\<rparr>"

abbreviation demo_done :: job where
  "demo_done \<equiv> demo_job\<lparr>status := Completed, started_at := Some 0, completed_at := Some 0\<rparr>"

abbreviation demo_store_done :: job_store where
  "demo_store_done \<equiv> \<lparr>jobs = [demo_done], next_seq = 1, now = 0, online = True\<rparr>"

abbreviation to_status :: "job_status \<Rightarrow> job_patch" where
  "to_status st \<equiv> \<lparr>p_status = st, p_books = None, p_error = None, p_start = False, p_complete = False\<rparr>"

abbreviation demo_running_job :: job where
  "demo_running_job \<equiv> demo_job\<lparr>status := Running, started_at := Some 0\<rparr>"

section \<open>Lemmas on the store operations\<close>

lemma status_step_less: "status_step a b \<Longrightarrow> a < b"
  by (cases a; cases b) (simp_all add: less_job_status_def less_eq_job_status_def)

lemma not_terminal_Pending_Running:
  "\<not> terminal s \<longleftrightarrow> s = Pending \<or> s = Running"
  by (cases s) (simp_all add: terminal_def)

lemma status_step_terminal: "terminal a \<Longrightarrow> \<not> status_step a b"
  by (cases a; cases b) (simp_all add: terminal_def)

lemma lookup_job_job_map: "lookup_job i s = job_map s i"
proof -
  have "\<And>js. find (\<lambda>j. job_id j = i) js = map_of (map (\<lambda>j. (job_id j, j)) js) i"
    subgoal for js by (induction js) auto
    done
  then show ?thesis by (simp add: lookup_job_def job_map_def)
qed

lemma find_Some_id: "lookup_job i s = Some j \<Longrightarrow> job_id j = i \<and> j \<in> set (jobs s)"
  by (auto simp: lookup_job_def dest: find_Some_iff [THEN iffD1])

lemma map_job_id_replace_job:
  "job_id j' = i \<Longrightarrow> map job_id (replace_job j' js) = map job_id js"
  by (induction js) (auto simp: replace_job_def)

lemma map_of_replace_job_other:
  "k \<noteq> job_id j' \<Longrightarrow>
   map_of (map (\<lambda>j. (job_id j, j)) (replace_job j' js)) k = map_of (map (\<lambda>j. (job_id j, j)) js) k"
  by (induction js) (auto simp: replace_job_def)

lemma map_of_replace_job:
  "job_id j' \<in> set (map job_id js) \<Longrightarrow>
   map_of (map (\<lambda>j. (job_id j, j)) (replace_job j' js)) k =
   ((map_of (map (\<lambda>j. (job_id j, j)) js))(job_id j' \<mapsto> j')) k"
proof (induction js)
  case Nil
  then show ?case by simp
next
  case (Cons a js)
  show ?case
  proof (cases "job_id a = job_id j'")
    case True
    then show ?thesis
      using map_of_replace_job_other [of k j' js] by (simp add: replace_job_def)
  next
    case False
    with Cons show ?thesis by (auto simp: replace_job_def)
  qed
qed

lemma issued_id_show_nat: "issued_id k (show_nat n) \<longleftrightarrow> n < k"
  by (simp add: issued_id_def)

lemma issued_id_mono: "issued_id k i \<Longrightarrow> k \<le> k' \<Longrightarrow> issued_id k' i"
  by (auto simp: issued_id_def split: option.splits)

lemma fresh_id_not_issued:
  "list_all (issued_id k) ids \<Longrightarrow> show_nat k \<notin> set ids"
  by (auto simp: list_all_iff issued_id_show_nat)

lemma stamp_ok_mono: "stamp_ok c x t \<Longrightarrow> t \<le> t' \<Longrightarrow> stamp_ok c x t'"
  by (auto simp: stamp_ok_def split: option.splits)

lemma job_wf_mono: "job_wf t j \<Longrightarrow> t \<le> t' \<Longrightarrow> job_wf t' j"
  by (auto simp: job_wf_def intro: stamp_ok_mono)

lemma job_wf_new_job: "job_wf t (new_job i jt ps cat t)"
  by (simp add: job_wf_def new_job_def stamp_ok_def terminal_def)

lemma job_wf_apply_patch:
  assumes wf: "job_wf t j" and ok: "patch_allowed j p"
  shows "job_wf t (apply_patch t p j)"
proof -
  have step: "status_step (status j) (p_status p)" using ok by (simp add: patch_allowed_def)
  then have nt: "\<not> terminal (status j)" using status_step_terminal by blast
  then have nc: "completed_at j = None" using wf by (simp add: job_wf_def)
  have np: "p_status p \<noteq> Pending" using step by (cases "status j"; cases "p_status p") simp_all
  have ne: "error_message j = None" using wf step
    by (cases "status j"; cases "p_status p") (auto simp: job_wf_def)
  have nr: "\<not> terminal (p_status p) \<Longrightarrow> status j = Pending"
    using step by (cases "status j"; cases "p_status p") (simp_all add: terminal_def)
  show ?thesis
    using wf ok nc np ne nr
    by (auto simp: job_wf_def apply_patch_def patch_allowed_def stamp_ok_def
        split: option.splits)
qed

lemma new_job_sel [simp]:
  "job_id (new_job i jt ps cat t) = i" "status (new_job i jt ps cat t) = Pending"
  "job_type (new_job i jt ps cat t) = jt" "parameters (new_job i jt ps cat t) = ps"
  "category_id (new_job i jt ps cat t) = cat" "created_at (new_job i jt ps cat t) = t"
  "started_at (new_job i jt ps cat t) = None" "completed_at (new_job i jt ps cat t) = None"
  "error_message (new_job i jt ps cat t) = None" "books_collected (new_job i jt ps cat t) = 0"
  by (simp_all add: new_job_def)

lemma store_create_Inr:
  "store_create jt ps cat s = (Inr j, s') \<longleftrightarrow>
     online s \<and> j = new_job (show_nat (next_seq s)) jt ps cat (now s) \<and>
     s' = s\<lparr>jobs := jobs s @ [j], next_seq := Suc (next_seq s)\<rparr>"
  by (auto simp: store_create_def Let_def)

lemma store_create_Inl: "store_create jt ps cat s = (Inl e, s') \<Longrightarrow> s' = s \<and> e = StoreUnavailable"
  by (auto simp: store_create_def Let_def split: if_splits)

lemma store_update_cases:
  assumes "store_update i p s = (r, s')"
  obtains (offline) "\<not> online s" "r = Inl StoreUnavailable" "s' = s"
    | (missing) "online s" "lookup_job i s = None" "r = Inl NotFound" "s' = s"
    | (same) j where "online s" "lookup_job i s = Some j" "p_status p = status j" "r = Inr j" "s' = s"
    | (rejected) j where "online s" "lookup_job i s = Some j" "p_status p \<noteq> status j"
        "\<not> patch_allowed j p" "r = Inl InvalidTransition" "s' = s"
    | (applied) j where "online s" "lookup_job i s = Some j" "p_status p \<noteq> status j"
        "patch_allowed j p" "r = Inr (apply_patch (now s) p j)"
        "s' = s\<lparr>jobs := replace_job (apply_patch (now s) p j) (jobs s)\<rparr>"
  using assms by (auto simp: store_update_def Let_def split: if_splits option.splits)

lemma store_update_Inl: "store_update i p s = (Inl e, s') \<Longrightarrow> s' = s"
  by (erule store_update_cases) auto

lemma apply_patch_keeps [simp]:
  "job_id (apply_patch t p j) = job_id j"
  "job_type (apply_patch t p j) = job_type j"
  "parameters (apply_patch t p j) = parameters j"
  "category_id (apply_patch t p j) = category_id j"
  "created_at (apply_patch t p j) = created_at j"
  "status (apply_patch t p j) = p_status p"
  by (simp_all add: apply_patch_def)

lemma store_wf_create:
  assumes "store_wf s" shows "store_wf (snd (store_create jt ps cat s))"
proof (cases "online s")
  case True
  have fresh: "show_nat (next_seq s) \<notin> set (map job_id (jobs s))"
    using assms by (intro fresh_id_not_issued) (simp add: store_wf_def)
  have "list_all (issued_id (Suc (next_seq s))) (map job_id (jobs s))"
    using assms by (auto simp: store_wf_def list_all_iff intro: issued_id_mono)
  with True assms fresh show ?thesis
    by (simp add: store_create_def Let_def store_wf_def issued_id_show_nat job_wf_new_job)
qed (simp add: store_create_def assms)

lemma store_wf_update:
  assumes wf: "store_wf s" shows "store_wf (snd (store_update i p s))"
proof (cases "store_update i p s")
  case (Pair r s')
  then show ?thesis
  proof (cases rule: store_update_cases)
    case (applied j)
    have id: "job_id j = i" and mem: "j \<in> set (jobs s)"
      using applied(2) by (simp_all add: find_Some_id)
    have ids: "map job_id (jobs s') = map job_id (jobs s)"
      using applied(6) id by (simp add: map_job_id_replace_job)
    have "job_wf (now s) j" using wf mem by (simp add: store_wf_def list_all_iff)
    then have "job_wf (now s) (apply_patch (now s) p j)"
      using applied(4) by (rule job_wf_apply_patch)
    then have "list_all (job_wf (now s)) (jobs s')"
      using wf applied(6) by (auto simp: store_wf_def list_all_iff replace_job_def)
    with wf ids Pair applied(6) show ?thesis by (simp add: store_wf_def)
  qed (use wf Pair in simp_all)
qed

lemma store_wf_tick: "store_wf s \<Longrightarrow> store_wf (store_tick d s)"
  by (auto simp: store_wf_def store_tick_def list_all_iff intro: job_wf_mono)

lemma store_wf_set_online: "store_wf s \<Longrightarrow> store_wf (store_set_online b s)"
  by (simp add: store_wf_def store_set_online_def)

lemma store_wf_empty: "store_wf empty_store"
  by (simp add: store_wf_def empty_store_def)

lemma job_map_create:
  assumes "store_wf s" "store_create jt ps cat s = (Inr j, s')"
  shows "job_map s (job_id j) = None \<and> job_map s' = (job_map s)(job_id j \<mapsto> j)"
proof -
  have fresh: "show_nat (next_seq s) \<notin> set (map job_id (jobs s))"
    using assms(1) by (intro fresh_id_not_issued) (simp add: store_wf_def)
  have j: "j = new_job (show_nat (next_seq s)) jt ps cat (now s)"
    and s': "s' = s\<lparr>jobs := jobs s @ [j], next_seq := Suc (next_seq s)\<rparr>"
    using assms(2) by (simp_all add: store_create_Inr)
  have "job_id j = show_nat (next_seq s)" using j by simp
  moreover have "map_of (map (\<lambda>j. (job_id j, j)) (jobs s)) (show_nat (next_seq s)) = None"
    using fresh by (simp add: map_of_eq_None_iff image_image)
  ultimately show ?thesis using s'
    by (auto simp: job_map_def fun_eq_iff map_add_def split: option.splits)
qed

lemma job_map_update:
  assumes "store_update i p s = (Inr j', s')"
  shows "job_map s' = (job_map s)(i \<mapsto> j')"
  using assms
proof (cases rule: store_update_cases)
  case (same j)
  then show ?thesis by (auto simp: lookup_job_job_map fun_eq_iff)
next
  case (applied j)
  have id: "job_id j = i" and mem: "j \<in> set (jobs s)"
    using applied(2) by (simp_all add: find_Some_id)
  have "job_id (apply_patch (now s) p j) \<in> set (map job_id (jobs s))"
    using mem by simp
  then show ?thesis using applied id
    by (simp add: job_map_def fun_eq_iff map_of_replace_job)
qed simp_all



lemma lookup_job_replace_other [simp]:
  "job_id j' \<noteq> k \<Longrightarrow> lookup_job k (s\<lparr>jobs := replace_job j' (jobs s)\<rparr>) = lookup_job k s"
  by (simp add: lookup_job_job_map job_map_def map_of_replace_job_other)

lemma replace_job_commute:
  "job_id a \<noteq> job_id b \<Longrightarrow> replace_job a (replace_job b js) = replace_job b (replace_job a js)"
  by (induction js) (auto simp: replace_job_def)

lemma store_update_other:
  assumes "store_update k q s = (r, s')" and "i \<noteq> k"
  shows "lookup_job i s' = lookup_job i s \<and> online s' = online s \<and> now s' = now s"
  using assms(1)
proof (cases rule: store_update_cases)
  case (applied j)
  then show ?thesis using assms(2) by (simp add: find_Some_id)
qed simp_all

lemma status_step_Running: "status_step Running x \<Longrightarrow> terminal x \<and> x \<noteq> Running"
  by (cases x) (simp_all add: terminal_def)


section \<open>Properties of the store\<close>

text \<open>
  C23: creating a job and reading it back by its id gives the created row: status pending, \<open>createdAt\<close> the store clock, neither \<open>startedAt\<close> nor \<open>completedAt\<close> set (spec 8, first property).
\<close>

theorem store_create_get:
  assumes "store_wf s" and "store_create jt ps cat s = (Inr j, s')"
  shows "store_get (job_id j) s' = (Inr j, s') \<and> status j = Pending \<and>
         created_at j = now s \<and> completed_at j = None \<and> started_at j = None"
proof -
  have m: "job_map s' = (job_map s)(job_id j \<mapsto> j)"
    using job_map_create [OF assms] by simp
  have on: "online s'" and j: "j = new_job (show_nat (next_seq s)) jt ps cat (now s)"
    using assms(2) by (auto simp: store_create_Inr)
  from m on have "store_get (job_id j) s' = (Inr j, s')"
    by (simp add: store_get_def lookup_job_job_map)
  with j show ?thesis by simp
qed

text \<open>
  C5: the transition guard of \<open>update\<close>: an update that would move a job backward, or from one terminal state to the other, is rejected with \<open>InvalidTransition\<close> and leaves the store unchanged; a duplicate transition to the state the job is already in is an idempotent no-op that returns the row and changes nothing.
\<close>

theorem store_update_guard:
  assumes "online s" and "lookup_job i s = Some j"
  shows "(\<not> status j \<le> p_status p \<longrightarrow> store_update i p s = (Inl InvalidTransition, s))
         \<and> (p_status p = status j \<longrightarrow> store_update i p s = (Inr j, s))"
proof (intro conjI impI)
  assume bwd: "\<not> status j \<le> p_status p"
  have "p_status p \<noteq> status j" using bwd by auto
  moreover have "\<not> status_step (status j) (p_status p)"
    using bwd status_step_less less_imp_le by blast
  then have "\<not> patch_allowed j p" by (simp add: patch_allowed_def)
  ultimately show "store_update i p s = (Inl InvalidTransition, s)" using assms by (simp add: store_update_def)
next
  assume "p_status p = status j"
  then show "store_update i p s = (Inr j, s)" using assms by (simp add: store_update_def)
qed

text \<open>
  C24: a successful update only moves a job forward in the lifecycle order and never changes its id, type, parameters, category or creation time.
\<close>

theorem store_update_forward:
  assumes "store_update i p s = (Inr j', s')"
  shows "\<exists>j. lookup_job i s = Some j \<and> status j \<le> status j' \<and>
           job_id j' = job_id j \<and> job_type j' = job_type j \<and> parameters j' = parameters j \<and>
           category_id j' = category_id j \<and> created_at j' = created_at j"
  using assms
proof (cases rule: store_update_cases)
  case (applied j)
  then show ?thesis
    using status_step_less [of "status j" "p_status p"] by (auto simp: patch_allowed_def)
qed auto

text \<open>
  C25: every store operation and every environment step (time passing, the database going away) preserves well-formedness: distinct issued ids and rows satisfying the field constraints of spec section 3.
\<close>

theorem store_wf_invariant:
  assumes "store_wf s"
  shows "store_wf (snd (store_create jt ps cat s)) \<and> store_wf (snd (store_update i p s)) \<and>
         store_wf (store_tick d s) \<and> store_wf (store_set_online b s)"
  using assms by (simp add: store_wf_create store_wf_update store_wf_tick store_wf_set_online)

text \<open>
  C26: the table refines a map from ids to rows: \<open>create\<close> adds a row under a fresh id, a successful \<open>update\<close> replaces the row under its id, and a failed update changes nothing.
\<close>

theorem store_refines_map:
  assumes "store_wf s"
  shows "(store_create jt ps cat s = (Inr j, s') \<longrightarrow>
            job_map s (job_id j) = None \<and> job_map s' = (job_map s)(job_id j \<mapsto> j))
       \<and> (store_update i p s = (Inr j', s'') \<longrightarrow> job_map s'' = (job_map s)(i \<mapsto> j'))
       \<and> (fst (store_update i p s) = Inl e \<longrightarrow> snd (store_update i p s) = s)"
  using assms job_map_create job_map_update store_update_Inl
  by (metis prod.collapse)

text \<open>
  C31: concurrent terminal updates of one running job: the first to reach the store wins and is persisted; the other, to the other terminal state, is rejected with \<open>InvalidTransition\<close> and changes nothing, so exactly one terminal state is ever recorded (spec 3 and 5).
\<close>

theorem store_update_race:
  assumes "online s" and "lookup_job i s = Some j" and "status j = Running"
    and "patch_allowed j p" and "p_status q \<noteq> p_status p"
  shows "\<exists>s1. store_update i p s = (Inr (apply_patch (now s) p j), s1)
           \<and> store_update i q s1 = (Inl InvalidTransition, s1)
           \<and> lookup_job i s1 = Some (apply_patch (now s) p j)"
proof -
  let ?j' = "apply_patch (now s) p j"
  have t: "terminal (p_status p)" "p_status p \<noteq> status j"
    using assms(3,4) status_step_Running by (simp_all add: patch_allowed_def)
  have u: "store_update i p s = (Inr ?j', s\<lparr>jobs := replace_job ?j' (jobs s)\<rparr>)"
    using assms(1,2,4) t(2) by (simp add: store_update_def Let_def)
  have l: "lookup_job i (s\<lparr>jobs := replace_job ?j' (jobs s)\<rparr>) = Some ?j'"
    using job_map_update [OF u] by (simp add: lookup_job_job_map)
  have "\<not> patch_allowed ?j' q"
    using t(1) status_step_terminal by (simp add: patch_allowed_def)
  then show ?thesis using u l assms(1,5) by (simp add: store_update_def Let_def)
qed

text \<open>
  C32: updates of two different jobs commute: in either order each gets the same answer and the table ends the same, so concurrent jobs do not interfere and need no cross-job locking (spec 5).
\<close>

theorem store_update_commute:
  assumes "i \<noteq> k" and "store_update i p s = (r1, s1)" and "store_update k q s1 = (r2, s2)"
  shows "\<exists>s1'. store_update k q s = (r2, s1') \<and> store_update i p s1' = (r1, s2)"
  using assms(2)
proof (cases rule: store_update_cases)
  case (applied j)
  note a1 = applied
  have ij: "job_id j = i" using a1(2) by (simp add: find_Some_id)
  from assms(3) show ?thesis
  proof (cases rule: store_update_cases)
    case (applied j2)
    have kj: "job_id j2 = k" using applied(2) by (simp add: find_Some_id)
    show ?thesis using a1 applied ij kj assms(1) replace_job_commute [of "apply_patch (now s) p j"]
      by (auto simp: store_update_def Let_def)
  qed (use a1 ij assms(1) in \<open>auto simp: store_update_def Let_def\<close>)
qed (use assms(3) store_update_other [OF assms(3) assms(1)] in \<open>auto simp: store_update_def\<close>)

lemma demo_create: "store_create Api demo_params None empty_store = (Inr demo_job, demo_store1)"
  by (simp add: store_create_def empty_store_def show_nat_small Let_def)

theorem store_create_get_witness:
  "store_wf empty_store \<and> store_create Api demo_params None empty_store = (Inr demo_job, demo_store1) \<and>
   store_get ''0'' demo_store1 = (Inr demo_job, demo_store1) \<and> status demo_job = Pending \<and>
   created_at demo_job = now empty_store \<and> completed_at demo_job = None \<and> started_at demo_job = None"
  using store_create_get [OF store_wf_empty demo_create] store_wf_empty demo_create by simp

theorem store_update_guard_witness:
  "online demo_store_done \<and> lookup_job ''0'' demo_store_done = Some demo_done \<and>
   store_update ''0'' (to_status Running) demo_store_done = (Inl InvalidTransition, demo_store_done) \<and>
   store_update ''0'' (to_status Completed) demo_store_done = (Inr demo_done, demo_store_done)"
proof -
  have h: "online demo_store_done" "lookup_job ''0'' demo_store_done = Some demo_done"
    by (simp_all add: lookup_job_def new_job_def)
  show ?thesis
    using h store_update_guard [OF h, of "to_status Running"] store_update_guard [OF h, of "to_status Completed"]
    by (simp add: new_job_def less_eq_job_status_def)
qed

lemma demo_start:
  "store_update ''0'' (to_status Running) demo_store1 =
     (Inr (demo_job\<lparr>status := Running\<rparr>), demo_store1\<lparr>jobs := [demo_job\<lparr>status := Running\<rparr>]\<rparr>)"
  by (simp add: store_update_def lookup_job_def patch_allowed_def apply_patch_def Let_def
      replace_job_def new_job_def)

theorem store_update_forward_witness:
  "store_update ''0'' (to_status Running) demo_store1 =
     (Inr (demo_job\<lparr>status := Running\<rparr>), demo_store1\<lparr>jobs := [demo_job\<lparr>status := Running\<rparr>]\<rparr>) \<and>
   (\<exists>j. lookup_job ''0'' demo_store1 = Some j \<and> status j \<le> Running \<and>
        job_id (demo_job\<lparr>status := Running\<rparr>) = job_id j \<and> job_type (demo_job\<lparr>status := Running\<rparr>) = job_type j \<and>
        parameters (demo_job\<lparr>status := Running\<rparr>) = parameters j \<and>
        category_id (demo_job\<lparr>status := Running\<rparr>) = category_id j \<and>
        created_at (demo_job\<lparr>status := Running\<rparr>) = created_at j)"
  using store_update_forward [OF demo_start] demo_start by simp

theorem store_wf_invariant_witness:
  "store_wf empty_store \<and>
   store_wf (snd (store_create Api demo_params None empty_store)) \<and>
   store_wf (snd (store_update ''0'' (to_status Running) empty_store)) \<and>
   store_wf (store_tick 5 empty_store) \<and> store_wf (store_set_online False empty_store)"
  using store_wf_invariant [OF store_wf_empty, of Api demo_params None "''0''" "to_status Running" 5 False]
    store_wf_empty by simp

theorem store_refines_map_witness:
  "store_wf empty_store \<and>
   job_map empty_store ''0'' = None \<and> job_map demo_store1 = (job_map empty_store)(''0'' \<mapsto> demo_job) \<and>
   snd (store_update ''0'' (to_status Running) empty_store) = empty_store"
proof -
  have u: "fst (store_update ''0'' (to_status Running) empty_store) = Inl NotFound"
    by (simp add: store_update_def empty_store_def lookup_job_def)
  show ?thesis
    using store_refines_map [OF store_wf_empty, of Api demo_params None demo_job demo_store1
        "''0''" "to_status Running" demo_job demo_store1 NotFound]
      u demo_create store_wf_empty by simp
qed

theorem store_update_race_witness:
  "\<exists>s1. store_update ''0'' (to_status Failed) \<lparr>jobs = [demo_running_job], next_seq = 1, now = 0, online = True\<rparr>
          = (Inr (apply_patch 0 (to_status Failed) demo_running_job), s1)
       \<and> store_update ''0'' (to_status Completed) s1 = (Inl InvalidTransition, s1)
       \<and> lookup_job ''0'' s1 = Some (apply_patch 0 (to_status Failed) demo_running_job)"
  using store_update_race [of "\<lparr>jobs = [demo_running_job], next_seq = 1, now = 0, online = True\<rparr>"
      "''0''" demo_running_job "to_status Failed" "to_status Completed"]
  by (simp add: lookup_job_def new_job_def patch_allowed_def)

theorem store_update_commute_witness:
  "\<exists>s1'. store_update ''1'' (to_status Running)
            \<lparr>jobs = [demo_running_job, new_job ''1'' Scraping demo_params None 0], next_seq = 2, now = 0, online = True\<rparr>
          = (Inr (apply_patch 0 (to_status Running) (new_job ''1'' Scraping demo_params None 0)), s1')
     \<and> store_update ''0'' (to_status Completed) s1' =
          (Inr (apply_patch 0 (to_status Completed) demo_running_job),
           \<lparr>jobs = [apply_patch 0 (to_status Completed) demo_running_job,
                    apply_patch 0 (to_status Running) (new_job ''1'' Scraping demo_params None 0)],
            next_seq = 2, now = 0, online = True\<rparr>)"
proof -
  let ?s = "\<lparr>jobs = [demo_running_job, new_job ''1'' Scraping demo_params None 0], next_seq = 2, now = 0, online = True\<rparr>"
  let ?s1 = "?s\<lparr>jobs := [apply_patch 0 (to_status Completed) demo_running_job, new_job ''1'' Scraping demo_params None 0]\<rparr>"
  have h1: "store_update ''0'' (to_status Completed) ?s = (Inr (apply_patch 0 (to_status Completed) demo_running_job), ?s1)"
    by (simp add: store_update_def lookup_job_def new_job_def patch_allowed_def replace_job_def apply_patch_def Let_def)
  have h2: "store_update ''1'' (to_status Running) ?s1 =
     (Inr (apply_patch 0 (to_status Running) (new_job ''1'' Scraping demo_params None 0)),
      \<lparr>jobs = [apply_patch 0 (to_status Completed) demo_running_job,
               apply_patch 0 (to_status Running) (new_job ''1'' Scraping demo_params None 0)],
       next_seq = 2, now = 0, online = True\<rparr>)"
    by (simp add: store_update_def lookup_job_def new_job_def patch_allowed_def replace_job_def apply_patch_def Let_def)
  show ?thesis using store_update_commute [OF _ h1 h2] by simp
qed

end
