(* ===== verification/Service.thy ===== *)
theory Service
  imports JobStore
begin

text \<open>
  The Job Orchestrator: \<open>dataService.collectBooksViaApi(keywords, category)\<close>
  and \<open>collectBooksViaScraping\<close>, awaited inline by the POST handler (route.ts
  lines 45--51). The data service is outside \<^verbatim>\<open>src/\<close>; its steps follow spec
  section 4.3: create a pending job; if that fails, return no job and run no
  strategy; otherwise mark it running (stamping \<open>startedAt\<close>), run the chosen
  strategy, let the call's latency pass on the clock, then mark the job completed
  with \<open>booksCollected = len(records)\<close> or failed with the stringified cause,
  stamping \<open>completedAt\<close>. A store error after the job exists is thrown: it is
  the \<open>Inl\<close> message, and the store keeps the writes made before it.
\<close>

definition running_patch :: job_patch where
  "running_patch = \<lparr>p_status = Running, p_books = None, p_error = None, p_start = True, p_complete = False\<rparr>"

definition completed_patch :: "nat \<Rightarrow> job_patch" where
  "completed_patch n = \<lparr>p_status = Completed, p_books = Some n, p_error = None, p_start = False, p_complete = True\<rparr>"

definition failed_patch :: "string \<Rightarrow> job_patch" where
  "failed_patch msg = \<lparr>p_status = Failed, p_books = None, p_error = Some msg, p_start = False, p_complete = True\<rparr>"

record collect_result =
  result_job :: "job option"
  result_books :: "book list"

definition store_error_message :: "store_error \<Rightarrow> string" where
  "store_error_message e =
     (case e of NotFound \<Rightarrow> ''Job not found''
      | InvalidTransition \<Rightarrow> ''Invalid job status transition''
      | StoreUnavailable \<Rightarrow> ''Job store unavailable'')"

text \<open>The last step: record the strategy's outcome in the job.\<close>

definition finish_job :: "string \<Rightarrow> collect_error + book list \<Rightarrow> job_store \<Rightarrow> (string + collect_result) \<times> job_store" where
  "finish_job i r s =
     (case r of
        Inr bs \<Rightarrow>
          (case store_update i (completed_patch (length bs)) s of
             (Inl e, s') \<Rightarrow> (Inl (store_error_message e), s')
           | (Inr j, s') \<Rightarrow> (Inr \<lparr>result_job = Some j, result_books = bs\<rparr>, s'))
      | Inl err \<Rightarrow>
          (case store_update i (failed_patch (show_collect_error err)) s of
             (Inl e, s') \<Rightarrow> (Inl (store_error_message e), s')
           | (Inr j, s') \<Rightarrow> (Inr \<lparr>result_job = Some j, result_books = []\<rparr>, s')))"

definition collect_books ::
  "collect_method \<Rightarrow> marketplace \<Rightarrow> string \<Rightarrow> string option \<Rightarrow> job_store \<Rightarrow> (string + collect_result) \<times> job_store" where
  "collect_books m mk kw cat s0 =
     (case store_create m \<lparr>param_keywords = kw, param_category = cat\<rparr> cat s0 of
        (Inl _, s1) \<Rightarrow> (Inr \<lparr>result_job = None, result_books = []\<rparr>, s1)
      | (Inr j, s1) \<Rightarrow>
          (case store_update (job_id j) running_patch s1 of
             (Inl e, s2) \<Rightarrow> (Inl (store_error_message e), s2)
           | (Inr _, s2) \<Rightarrow>
               finish_job (job_id j) (collect m mk kw cat) (store_tick (latency mk) s2)))"

definition outcome_patch :: "collect_error + book list \<Rightarrow> job_patch" where
  "outcome_patch r = (case r of Inr bs \<Rightarrow> completed_patch (length bs)
                      | Inl e \<Rightarrow> failed_patch (show_collect_error e))"

definition outcome_books :: "collect_error + book list \<Rightarrow> book list" where
  "outcome_books r = (case r of Inr bs \<Rightarrow> bs | Inl _ \<Rightarrow> [])"

text \<open>
  The abstract specification of one synchronous collection: the row a caller
  should find once the call returns, given the id and clock at the start.
\<close>

definition expected_job ::
  "collect_method \<Rightarrow> marketplace \<Rightarrow> string \<Rightarrow> string option \<Rightarrow> string \<Rightarrow> nat \<Rightarrow> job" where
  "expected_job m mk kw cat i t =
     (let j0 = new_job i m \<lparr>param_keywords = kw, param_category = cat\<rparr> cat t
      in case collect m mk kw cat of
           Inr bs \<Rightarrow> j0\<lparr>status := Completed, books_collected := length bs,
                       started_at := Some t, completed_at := Some (t + latency mk)\<rparr>
         | Inl e \<Rightarrow> j0\<lparr>status := Failed, error_message := Some (show_collect_error e),
                       started_at := Some t, completed_at := Some (t + latency mk)\<rparr>)"

text \<open>A marketplace for the witnesses: the API answers with no books, result pages are blocked.\<close>

abbreviation demo_market :: marketplace where
  "demo_market \<equiv> \<lparr>api_source = (\<lambda>kw cat. ApiOk []), page_source = (\<lambda>kw cat. PageBlocked), latency = 3\<rparr>"

section \<open>The run, step by step\<close>

lemma lookup_job_create:
  assumes "store_wf s" "store_create jt ps cat s = (Inr j, s')"
  shows "lookup_job (job_id j) s' = Some j"
  using job_map_create [OF assms] by (simp add: lookup_job_job_map)

lemma store_update_applied:
  assumes "online s" "lookup_job i s = Some j" "p_status p \<noteq> status j" "patch_allowed j p"
  shows "store_update i p s =
           (Inr (apply_patch (now s) p j), s\<lparr>jobs := replace_job (apply_patch (now s) p j) (jobs s)\<rparr>)"
  using assms by (simp add: store_update_def Let_def)

lemma lookup_job_update:
  "store_update i p s = (Inr j', s') \<Longrightarrow> lookup_job i s' = Some j'"
  by (simp add: lookup_job_job_map job_map_update)

lemma lookup_job_tick [simp]: "lookup_job i (store_tick d s) = lookup_job i s"
  by (simp add: lookup_job_def store_tick_def)

lemma job_map_tick [simp]: "job_map (store_tick d s) = job_map s"
  by (simp add: job_map_def store_tick_def)

lemma online_tick [simp]: "online (store_tick d s) = online s"
  "now (store_tick d s) = now s + d"
  by (simp_all add: store_tick_def)

lemma store_update_online: "store_update i p s = (r, s') \<Longrightarrow> online s' = online s \<and> now s' = now s"
  by (erule store_update_cases) auto

lemma finish_job_running:
  assumes "online s" "lookup_job i s = Some j" "status j = Running"
  shows "finish_job i r s =
           (Inr \<lparr>result_job = Some (apply_patch (now s) (outcome_patch r) j), result_books = outcome_books r\<rparr>,
            s\<lparr>jobs := replace_job (apply_patch (now s) (outcome_patch r) j) (jobs s)\<rparr>)"
proof (cases r)
  case (Inl e)
  have "store_update i (failed_patch (show_collect_error e)) s =
          (Inr (apply_patch (now s) (failed_patch (show_collect_error e)) j),
           s\<lparr>jobs := replace_job (apply_patch (now s) (failed_patch (show_collect_error e)) j) (jobs s)\<rparr>)"
    using assms by (intro store_update_applied) (simp_all add: failed_patch_def patch_allowed_def terminal_def)
  then show ?thesis using Inl by (simp add: finish_job_def outcome_patch_def outcome_books_def)
next
  case (Inr bs)
  have "store_update i (completed_patch (length bs)) s =
          (Inr (apply_patch (now s) (completed_patch (length bs)) j),
           s\<lparr>jobs := replace_job (apply_patch (now s) (completed_patch (length bs)) j) (jobs s)\<rparr>)"
    using assms by (intro store_update_applied) (simp_all add: completed_patch_def patch_allowed_def terminal_def)
  then show ?thesis using Inr by (simp add: finish_job_def outcome_patch_def outcome_books_def)
qed

lemma collect_books_online:
  fixes m :: collect_method and kw :: string and cat :: "string option" and mk :: marketplace
  assumes wf: "store_wf s" and on: "online s"
  defines "j0 \<equiv> new_job (show_nat (next_seq s)) m \<lparr>param_keywords = kw, param_category = cat\<rparr> cat (now s)"
  defines "s1 \<equiv> s\<lparr>jobs := jobs s @ [j0], next_seq := Suc (next_seq s)\<rparr>"
  defines "j1 \<equiv> apply_patch (now s) running_patch j0"
  defines "s2 \<equiv> store_tick (latency mk) (s1\<lparr>jobs := replace_job j1 (jobs s1)\<rparr>)"
  shows "collect_books m mk kw cat s = finish_job (job_id j0) (collect m mk kw cat) s2 \<and>
         store_wf s2 \<and> online s2 \<and> now s2 = now s + latency mk \<and>
         lookup_job (job_id j0) s2 = Some j1 \<and> job_map s2 = (job_map s)(job_id j0 \<mapsto> j1)"
proof -
  have c: "store_create m \<lparr>param_keywords = kw, param_category = cat\<rparr> cat s = (Inr j0, s1)"
    using on by (simp add: store_create_Inr j0_def s1_def)
  have m1: "job_map s1 = (job_map s)(job_id j0 \<mapsto> j0)" using job_map_create [OF wf c] by simp
  have wf1: "store_wf s1" using store_wf_create [OF wf] c by (metis snd_conv)
  have l1: "lookup_job (job_id j0) s1 = Some j0" by (rule lookup_job_create [OF wf c])
  have on1: "online s1" "now s1 = now s" using on by (simp_all add: s1_def)
  have u: "store_update (job_id j0) running_patch s1 = (Inr j1, s1\<lparr>jobs := replace_job j1 (jobs s1)\<rparr>)"
    unfolding j1_def using store_update_applied [of s1 "job_id j0" j0 running_patch] on1 l1
    by (simp add: j0_def running_patch_def patch_allowed_def terminal_def)
  have wf2: "store_wf (s1\<lparr>jobs := replace_job j1 (jobs s1)\<rparr>)"
    using store_wf_update [OF wf1] u by (metis snd_conv)
  have m2: "job_map (s1\<lparr>jobs := replace_job j1 (jobs s1)\<rparr>) = (job_map s)(job_id j0 \<mapsto> j1)"
    using job_map_update [OF u] m1 by simp
  show ?thesis
    using c u wf2 m2 on1
    by (simp add: collect_books_def s2_def store_wf_tick lookup_job_job_map)
qed

lemma expected_job_patches:
  "apply_patch (t + latency mk) (outcome_patch (collect m mk kw cat))
      (apply_patch t running_patch (new_job i m \<lparr>param_keywords = kw, param_category = cat\<rparr> cat t))
   = expected_job m mk kw cat i t"
  by (cases "collect m mk kw cat")
     (simp_all add: expected_job_def outcome_patch_def apply_patch_def running_patch_def
       completed_patch_def failed_patch_def new_job_def)

text \<open>The whole synchronous run on an online, well-formed store.\<close>

lemma collect_books_outcome:
  assumes wf: "store_wf s" and on: "online s"
  shows "\<exists>s'. collect_books m mk kw cat s =
            (Inr \<lparr>result_job = Some (expected_job m mk kw cat (show_nat (next_seq s)) (now s)),
                  result_books = outcome_books (collect m mk kw cat)\<rparr>, s')
          \<and> job_map s' = (job_map s)(show_nat (next_seq s) \<mapsto> expected_job m mk kw cat (show_nat (next_seq s)) (now s))
          \<and> store_wf s'"
proof -
  let ?j0 = "new_job (show_nat (next_seq s)) m \<lparr>param_keywords = kw, param_category = cat\<rparr> cat (now s)"
  let ?j1 = "apply_patch (now s) running_patch ?j0"
  let ?s1 = "s\<lparr>jobs := jobs s @ [?j0], next_seq := Suc (next_seq s)\<rparr>"
  let ?s2 = "store_tick (latency mk) (?s1\<lparr>jobs := replace_job ?j1 (jobs ?s1)\<rparr>)"
  let ?r = "collect m mk kw cat"
  let ?jf = "apply_patch (now ?s2) (outcome_patch ?r) ?j1"
  let ?s3 = "?s2\<lparr>jobs := replace_job ?jf (jobs ?s2)\<rparr>"
  have run: "collect_books m mk kw cat s = finish_job (job_id ?j0) ?r ?s2"
    and wf2: "store_wf ?s2" and on2: "online ?s2" and t2: "now ?s2 = now s + latency mk"
    and l2: "lookup_job (job_id ?j0) ?s2 = Some ?j1"
    and m2: "job_map ?s2 = (job_map s)(job_id ?j0 \<mapsto> ?j1)"
    using collect_books_online [OF wf on, where m = m and kw = kw and cat = cat and mk = mk] by simp_all
  have st: "status ?j1 = Running" by (simp add: running_patch_def)
  have fin: "finish_job (job_id ?j0) ?r ?s2 =
               (Inr \<lparr>result_job = Some ?jf, result_books = outcome_books ?r\<rparr>, ?s3)"
    by (rule finish_job_running [OF on2 l2 st])
  have jf: "?jf = expected_job m mk kw cat (show_nat (next_seq s)) (now s)"
    using t2 expected_job_patches by simp
  have ok1: "p_status (outcome_patch ?r) \<noteq> status ?j1"
    by (cases ?r) (simp_all add: running_patch_def outcome_patch_def completed_patch_def failed_patch_def)
  have ok2: "patch_allowed ?j1 (outcome_patch ?r)"
    by (cases ?r) (simp_all add: running_patch_def outcome_patch_def completed_patch_def
        failed_patch_def patch_allowed_def terminal_def)
  have u: "store_update (job_id ?j0) (outcome_patch ?r) ?s2 = (Inr ?jf, ?s3)"
    by (rule store_update_applied [OF on2 l2 ok1 ok2])
  have "job_map ?s3 = (job_map s)(show_nat (next_seq s) \<mapsto> ?jf)"
    using job_map_update [OF u] m2 by simp
  moreover have "store_wf ?s3" using store_wf_update [OF wf2] u by (metis snd_conv)
  ultimately show ?thesis using run fin jf by auto
qed

lemma terminal_expected_job: "terminal (status (expected_job m mk kw cat i t))"
  by (cases "collect m mk kw cat") (simp_all add: expected_job_def terminal_def Let_def)

lemma store_create_online_flag: "store_create jt ps cat s = (r, s') \<Longrightarrow> online s' = online s"
  by (auto simp: store_create_def Let_def split: if_splits)

lemma finish_job_online_flag: "finish_job i r s = (x, s') \<Longrightarrow> online s' = online s"
  by (auto simp: finish_job_def split: sum.splits prod.splits dest: store_update_online)

lemma collect_books_online_flag: "collect_books m mk kw cat s = (r, s') \<Longrightarrow> online s' = online s"
  by (auto simp: collect_books_def split: prod.splits sum.splits
      dest!: store_create_online_flag store_update_online finish_job_online_flag)

text \<open>What a run does to the table's ids, the counter and the clock.\<close>

lemma store_update_shape:
  "store_update i p s = (r, s') \<Longrightarrow>
   map job_id (jobs s') = map job_id (jobs s) \<and> next_seq s' = next_seq s \<and> now s' = now s"
  by (erule store_update_cases) (auto simp: find_Some_id map_job_id_replace_job)

lemma finish_job_shape:
  "finish_job i r s = (x, s') \<Longrightarrow>
   map job_id (jobs s') = map job_id (jobs s) \<and> next_seq s' = next_seq s \<and> now s' = now s"
  by (auto simp: finish_job_def split: sum.splits prod.splits dest!: store_update_shape)

lemma ids_snoc:
  assumes "map job_id xs = map job_id ys @ [a]"
  shows "take (length ys) (map job_id xs) = map job_id ys \<and> length xs = Suc (length ys)"
proof -
  have "length xs = Suc (length ys)" using arg_cong [OF assms, of length] by simp
  then show ?thesis using assms by simp
qed

lemma collect_books_bounds:
  assumes "collect_books m mk kw cat s = (r, s')"
  shows "take (length (jobs s)) (map job_id (jobs s')) = map job_id (jobs s)
         \<and> length (jobs s') \<le> Suc (length (jobs s)) \<and> next_seq s' \<le> Suc (next_seq s)
         \<and> now s \<le> now s' \<and> now s' \<le> now s + latency mk"
proof (cases "store_create m \<lparr>param_keywords = kw, param_category = cat\<rparr> cat s")
  case (Pair c s1)
  show ?thesis
  proof (cases c)
    case (Inl e)
    have "s1 = s"
      using store_create_Inl [of m "\<lparr>param_keywords = kw, param_category = cat\<rparr>" cat s e s1] Pair Inl
      by simp
    then show ?thesis using assms Pair Inl by (simp add: collect_books_def)
  next
    case (Inr j)
    have s1: "map job_id (jobs s1) = map job_id (jobs s) @ [job_id j]" "next_seq s1 = Suc (next_seq s)"
      "now s1 = now s"
      using Pair Inr by (auto simp: store_create_def Let_def split: if_splits)
    obtain u s2 where u: "store_update (job_id j) running_patch s1 = (u, s2)" by fastforce
    have s2: "map job_id (jobs s2) = map job_id (jobs s1)" "next_seq s2 = next_seq s1" "now s2 = now s1"
      using store_update_shape [OF u] by simp_all
    show ?thesis
    proof (cases u)
      case (Inl e)
      then have "s' = s2" using assms Pair Inr u by (simp add: collect_books_def)
      then show ?thesis using s1 s2 ids_snoc [of "jobs s'" "jobs s" "job_id j"] by simp
    next
      case (Inr j2)
      then have f: "finish_job (job_id j) (collect m mk kw cat) (store_tick (latency mk) s2) = (r, s')"
        using assms Pair \<open>c = Inr j\<close> u by (simp add: collect_books_def)
      have "map job_id (jobs s') = map job_id (jobs s2)" "next_seq s' = next_seq s2"
        "now s' = now s2 + latency mk"
        using finish_job_shape [OF f] by (simp_all add: store_tick_def)
      then show ?thesis using s1 s2 ids_snoc [of "jobs s'" "jobs s" "job_id j"] by simp
    qed
  qed
qed

section \<open>Properties of the orchestrator\<close>

text \<open>
  C3: refinement. On a reachable database, one synchronous collection returns
  exactly the row of the abstract specification \<open>expected_job\<close> (fresh id,
  pending then running then a terminal state, the strategy's outcome recorded),
  persists that row under its id and nothing else, and keeps the store well formed.
\<close>

theorem collect_books_refines:
  assumes "store_wf s" and "online s"
  shows "\<exists>s'. collect_books m mk kw cat s =
            (Inr \<lparr>result_job = Some (expected_job m mk kw cat (show_nat (next_seq s)) (now s)),
                  result_books = outcome_books (collect m mk kw cat)\<rparr>, s')
          \<and> job_map s' = (job_map s)(show_nat (next_seq s) \<mapsto> expected_job m mk kw cat (show_nat (next_seq s)) (now s))
          \<and> store_wf s' \<and> terminal (status (expected_job m mk kw cat (show_nat (next_seq s)) (now s)))"
  using collect_books_outcome [OF assms] terminal_expected_job by blast

text \<open>
  C19: a strategy that returns no records yields a completed job with
  \<open>booksCollected = 0\<close> and no error, not a failed one (spec 8, fourth property).
\<close>

theorem collect_books_empty_completed:
  assumes "store_wf s" and "online s" and "collect m mk kw cat = Inr []"
  shows "\<exists>s' j. collect_books m mk kw cat s = (Inr \<lparr>result_job = Some j, result_books = []\<rparr>, s')
           \<and> status j = Completed \<and> books_collected j = 0 \<and> error_message j = None"
  using collect_books_outcome [OF assms(1,2), where m = m and mk = mk and kw = kw and cat = cat] assms(3)
  by (auto simp: expected_job_def outcome_books_def Let_def)

text \<open>
  C20: a strategy that is rate limited yields a failed job whose
  \<open>errorMessage\<close> carries the rate-limit cause and whose \<open>completedAt\<close> is
  set, after the call's latency (spec 8, fifth property).
\<close>

theorem collect_books_rate_limited:
  assumes "store_wf s" and "online s" and "collect m mk kw cat = Inl (RateLimitError c)"
  shows "\<exists>s' j. collect_books m mk kw cat s = (Inr \<lparr>result_job = Some j, result_books = []\<rparr>, s')
           \<and> status j = Failed \<and> error_message j = Some (''RateLimitError: '' @ c)
           \<and> completed_at j = Some (now s + latency mk)"
  using collect_books_outcome [OF assms(1,2), where m = m and mk = mk and kw = kw and cat = cat] assms(3)
  by (auto simp: expected_job_def outcome_books_def show_collect_error_def Let_def)

text \<open>
  When the job cannot be created the call returns no job, the store is
  untouched, and the result does not depend on the marketplace: no strategy ran.
\<close>

lemma collect_books_offline:
  assumes "\<not> online s"
  shows "collect_books m mk kw cat s = (Inr \<lparr>result_job = None, result_books = []\<rparr>, s)"
  using assms by (simp add: collect_books_def store_create_def)

theorem collect_books_refines_witness:
  "store_wf empty_store \<and> online empty_store \<and>
   (\<exists>s'. collect_books Api demo_market ''gardening'' None empty_store =
            (Inr \<lparr>result_job = Some (expected_job Api demo_market ''gardening'' None ''0'' 0),
                  result_books = []\<rparr>, s')
          \<and> job_map s' = (job_map empty_store)(''0'' \<mapsto> expected_job Api demo_market ''gardening'' None ''0'' 0)
          \<and> store_wf s' \<and> terminal (status (expected_job Api demo_market ''gardening'' None ''0'' 0)))"
  using collect_books_refines [OF store_wf_empty, of Api demo_market "''gardening''" None] store_wf_empty
  by (simp add: empty_store_def show_nat_small outcome_books_def api_collect_def)

theorem collect_books_empty_completed_witness:
  "store_wf empty_store \<and> online empty_store \<and> collect Api demo_market ''gardening'' None = Inr [] \<and>
   (\<exists>s' j. collect_books Api demo_market ''gardening'' None empty_store =
              (Inr \<lparr>result_job = Some j, result_books = []\<rparr>, s')
           \<and> status j = Completed \<and> books_collected j = 0 \<and> error_message j = None)"
proof -
  have h: "store_wf empty_store" "online empty_store" "collect Api demo_market ''gardening'' None = Inr []"
    by (rule store_wf_empty) (simp_all add: empty_store_def api_collect_def)
  show ?thesis using h collect_books_empty_completed [OF h] by blast
qed

theorem collect_books_rate_limited_witness:
  "store_wf empty_store \<and> online empty_store \<and>
   collect Scraping demo_market ''gardening'' None = Inl (RateLimitError ''anti-automation response'') \<and>
   (\<exists>s' j. collect_books Scraping demo_market ''gardening'' None empty_store =
              (Inr \<lparr>result_job = Some j, result_books = []\<rparr>, s')
           \<and> status j = Failed \<and> error_message j = Some (''RateLimitError: '' @ ''anti-automation response'')
           \<and> completed_at j = Some (now empty_store + 3))"
proof -
  have h: "store_wf empty_store" "online empty_store"
    "collect Scraping demo_market ''gardening'' None = Inl (RateLimitError ''anti-automation response'')"
    by (rule store_wf_empty) (simp_all add: empty_store_def scrape_collect_def)
  show ?thesis using h collect_books_rate_limited [OF h] by simp
qed

end
