(* ===== verification/Route.thy ===== *)
theory Route
  imports Service
begin

text \<open>
  The two handlers of \<^verbatim>\<open>src/app/api/amazon/collect/route.ts\<close>. The outside
  world enters as inputs: the result of \<open>createClient()\<close> and
  \<open>supabase.auth.getUser()\<close> (an exception message, no user, or a user id),
  the result of GET's second \<open>createClient()\<close>, the result of
  \<open>await req.json()\<close> (a parse exception or a JSON value), the
  \<open>jobId\<close> query parameter (absent or a string), the marketplace, and the job
  store. Each \<open>try\<close>/\<open>catch\<close> is the \<open>Inl\<close> branch of these inputs or of the
  data service, answered with \<open>internal_error\<close> (status 500). POST returns the
  response and the store after the data service's writes; GET returns only a
  response: it cannot change the store.
\<close>

type_synonym auth = "string + string option"

text \<open>The result of GET's second \<open>createClient()\<close> (line 103): an exception message, or a client.\<close>

type_synonym client = "string + unit"

section \<open>Serialising rows\<close>

definition status_name :: "job_status \<Rightarrow> string" where
  "status_name st =
     (case st of Pending \<Rightarrow> ''pending'' | Running \<Rightarrow> ''running''
      | Completed \<Rightarrow> ''completed'' | Failed \<Rightarrow> ''failed'')"

text \<open>The \<open>parameters\<close> column: \<open>{keywords, category}\<close>; \<open>JSON.stringify\<close> drops an undefined category.\<close>

definition params_json :: "job_params \<Rightarrow> json" where
  "params_json ps =
     JObj ([(''keywords'', JStr (param_keywords ps))]
           @ (case param_category ps of None \<Rightarrow> [] | Some c \<Rightarrow> [(''category'', JStr c)]))"

text \<open>\<open>result.job\<close> as the POST response carries it: the row with its column names.\<close>

definition job_row_json :: "job \<Rightarrow> json" where
  "job_row_json j =
     JObj [(''id'', JStr (job_id j)),
           (''job_type'', JStr (method_name (job_type j))),
           (''status'', JStr (status_name (status j))),
           (''category_id'', json_opt JStr (category_id j)),
           (''parameters'', params_json (parameters j)),
           (''books_collected'', json_nat (books_collected j)),
           (''error_message'', json_opt JStr (error_message j)),
           (''started_at'', json_opt json_nat (started_at j)),
           (''completed_at'', json_opt json_nat (completed_at j)),
           (''created_at'', json_nat (created_at j))]"

text \<open>The public view built by GET (lines 115--126): the columns renamed to camelCase.\<close>

definition job_view_json :: "job \<Rightarrow> json" where
  "job_view_json j =
     JObj [(''id'', JStr (job_id j)),
           (''jobType'', JStr (method_name (job_type j))),
           (''status'', JStr (status_name (status j))),
           (''categoryId'', json_opt JStr (category_id j)),
           (''parameters'', params_json (parameters j)),
           (''booksCollected'', json_nat (books_collected j)),
           (''errorMessage'', json_opt JStr (error_message j)),
           (''startedAt'', json_opt json_nat (started_at j)),
           (''completedAt'', json_opt json_nat (completed_at j)),
           (''createdAt'', json_nat (created_at j))]"

section \<open>POST /api/amazon/collect\<close>

definition unauthorized :: response where
  "unauthorized = json_response (error_body ''Unauthorized'') 401"

definition invalid_request :: "zod_issue list \<Rightarrow> response" where
  "invalid_request issues =
     json_response (JObj [(''error'', JStr ''Invalid request''),
                          (''details'', JArr (map issue_json issues))]) 400"

definition collected_message :: "nat \<Rightarrow> string" where
  "collected_message n = ''Successfully collected '' @ show_nat n @ '' books''"

definition success_response :: "job \<Rightarrow> book list \<Rightarrow> response" where
  "success_response j bs =
     json_response (JObj [(''success'', JBool True),
                          (''job'', job_row_json j),
                          (''booksCollected'', json_nat (length bs)),
                          (''message'', JStr (collected_message (length bs)))]) 200"

definition post_collect :: "auth \<Rightarrow> string + json \<Rightarrow> marketplace \<Rightarrow> job_store \<Rightarrow> response \<times> job_store" where
  "post_collect au body mk s =
     (case au of
        Inl msg \<Rightarrow> (internal_error msg, s)
      | Inr None \<Rightarrow> (unauthorized, s)
      | Inr (Some _) \<Rightarrow>
          (case body of
             Inl msg \<Rightarrow> (internal_error msg, s)
           | Inr b \<Rightarrow>
               (case safe_parse b of
                  Inl issues \<Rightarrow> (invalid_request issues, s)
                | Inr req \<Rightarrow>
                    (case collect_books (req_method req) mk (req_keywords req) (req_category req) s of
                       (Inl msg, s') \<Rightarrow> (internal_error msg, s')
                     | (Inr res, s') \<Rightarrow>
                         (case result_job res of
                            None \<Rightarrow> (json_response (error_body ''Failed to create collection job'') 500, s')
                          | Some j \<Rightarrow> (success_response j (result_books res), s'))))))"

section \<open>GET /api/amazon/collect\<close>

text \<open>
  \<open>.from("data_collection_jobs").select("*").eq("id", jobId).single()\<close>: the
  rows with that id; \<open>single()\<close> is an error unless there is exactly one, and
  so is a database that cannot be reached.
\<close>

definition select_single :: "string \<Rightarrow> job_store \<Rightarrow> string + job" where
  "select_single i s =
     (if \<not> online s then Inl ''connection error''
      else case filter (\<lambda>j. job_id j = i) (jobs s) of
             [j] \<Rightarrow> Inr j
           | [] \<Rightarrow> Inl ''PGRST116: no rows returned''
           | _ \<Rightarrow> Inl ''PGRST116: multiple rows returned'')"

definition get_status :: "auth \<Rightarrow> string option \<Rightarrow> client \<Rightarrow> job_store \<Rightarrow> response" where
  "get_status au q cl s =
     (case au of
        Inl msg \<Rightarrow> internal_error msg
      | Inr None \<Rightarrow> unauthorized
      | Inr (Some _) \<Rightarrow>
          (case q of
             None \<Rightarrow> json_response (error_body ''jobId parameter is required'') 400
           | Some i \<Rightarrow>
               if i = [] then json_response (error_body ''jobId parameter is required'') 400
               else (case cl of
                       Inl msg \<Rightarrow> internal_error msg
                     | Inr _ \<Rightarrow>
                         (case select_single i s of
                            Inl _ \<Rightarrow> json_response (error_body ''Job not found'') 404
                          | Inr row \<Rightarrow> json_response (JObj [(''job'', job_view_json row)]) 200))))"


section \<open>Lemmas on the handlers\<close>

lemma filter_id_distinct:
  "distinct (map job_id js) \<Longrightarrow>
   filter (\<lambda>j. job_id j = i) js = (case find (\<lambda>j. job_id j = i) js of None \<Rightarrow> [] | Some j \<Rightarrow> [j])"
proof (induction js)
  case (Cons a js)
  show ?case
  proof (cases "job_id a = i")
    case True
    with Cons.prems have "\<forall>x \<in> set js. job_id x \<noteq> i" by (auto simp: image_iff)
    then have "filter (\<lambda>j. job_id j = i) js = []" by (simp add: filter_empty_conv)
    with True show ?thesis by simp
  next
    case False
    with Cons show ?thesis by simp
  qed
qed simp

lemma select_single_lookup:
  assumes "store_wf s" "online s"
  shows "select_single i s =
           (case lookup_job i s of None \<Rightarrow> Inl ''PGRST116: no rows returned'' | Some j \<Rightarrow> Inr j)"
  using assms filter_id_distinct [of "jobs s" i]
  by (simp add: select_single_def lookup_job_def store_wf_def split: option.splits)

lemma post_collect_valid_run:
  assumes "safe_parse b = Inr req" and "store_wf s" and "online s"
  shows "\<exists>s'. post_collect (Inr (Some u)) (Inr b) mk s =
           (success_response (expected_job (req_method req) mk (req_keywords req) (req_category req)
                                (show_nat (next_seq s)) (now s))
                             (outcome_books (collect (req_method req) mk (req_keywords req) (req_category req))), s')
         \<and> job_map s' = (job_map s)(show_nat (next_seq s) \<mapsto>
              expected_job (req_method req) mk (req_keywords req) (req_category req) (show_nat (next_seq s)) (now s))
         \<and> store_wf s' \<and> online s'"
proof -
  obtain s' where run: "collect_books (req_method req) mk (req_keywords req) (req_category req) s =
            (Inr \<lparr>result_job = Some (expected_job (req_method req) mk (req_keywords req) (req_category req)
                                       (show_nat (next_seq s)) (now s)),
                  result_books = outcome_books (collect (req_method req) mk (req_keywords req) (req_category req))\<rparr>, s')"
    and m: "job_map s' = (job_map s)(show_nat (next_seq s) \<mapsto>
              expected_job (req_method req) mk (req_keywords req) (req_category req) (show_nat (next_seq s)) (now s))"
    and wf: "store_wf s'"
    using collect_books_outcome [OF assms(2,3)] by blast
  have "online s'" using collect_books_online_flag [OF run] assms(3) by simp
  then show ?thesis using run m wf assms(1) by (auto simp: post_collect_def)
qed

lemma success_response_fields:
  "http_status (success_response j bs) = 200"
  "json_get (http_body (success_response j bs)) ''success'' = Some (JBool True)"
  "json_get (http_body (success_response j bs)) ''message'' = Some (JStr (collected_message (length bs)))"
  "json_get (http_body (success_response j bs)) ''job'' = Some (job_row_json j)"
  by (simp_all add: success_response_def)


section \<open>Properties of the handlers\<close>

text \<open>
  C2: an authenticated POST with a valid body answers 200 with \<open>success: true\<close>, the job the orchestrator produced (the row of \<open>expected_job\<close>), \<open>booksCollected\<close> the number of records and the matching message; the store gains exactly that row and stays well formed.
\<close>

theorem post_collect_valid:
  assumes "safe_parse b = Inr req" and "store_wf s" and "online s"
  shows "\<exists>s'. post_collect (Inr (Some u)) (Inr b) mk s =
           (success_response (expected_job (req_method req) mk (req_keywords req) (req_category req)
                                (show_nat (next_seq s)) (now s))
                             (outcome_books (collect (req_method req) mk (req_keywords req) (req_category req))), s')
         \<and> http_status (fst (post_collect (Inr (Some u)) (Inr b) mk s)) = 200
         \<and> job_map s' = (job_map s)(show_nat (next_seq s) \<mapsto>
              expected_job (req_method req) mk (req_keywords req) (req_category req) (show_nat (next_seq s)) (now s))
         \<and> store_wf s'"
  using post_collect_valid_run [OF assms, of u mk] by (auto simp: success_response_def)

text \<open>
  C15: POST's answers before the data service is called, none of which touches the store: an exception from the auth client or from \<open>req.json()\<close> is answered 500 \<open>Internal server error\<close> with its message, a request without a user 401 \<open>Unauthorized\<close> (before the body is read), and an authenticated body that fails the schema 400 with the zod issues as \<open>details\<close>. No job is created on any of these paths.
\<close>

theorem post_collect_early_exits:
  assumes "safe_parse b = Inl issues"
  shows "post_collect (Inl msg) body mk s = (internal_error msg, s)
         \<and> post_collect (Inr None) body mk s = (unauthorized, s)
         \<and> post_collect (Inr (Some u)) (Inl msg) mk s = (internal_error msg, s)
         \<and> post_collect (Inr (Some u)) (Inr b) mk s = (invalid_request issues, s)
         \<and> http_status (internal_error msg) = 500 \<and> http_status unauthorized = 401
         \<and> http_status (invalid_request issues) = 400"
  using assms by (simp add: post_collect_def unauthorized_def invalid_request_def)

text \<open>
  C16: GET's answers before a row is read: an exception from the auth client is answered 500 with its message, a request without a user 401, a missing or empty \<open>jobId\<close> 400 (\<open>!jobId\<close> is true for the empty string), and an exception from the second \<open>createClient()\<close>, reached only with a non-empty \<open>jobId\<close>, 500 with its message.
\<close>

theorem get_status_early_exits:
  "get_status (Inl msg) q cl s = internal_error msg
   \<and> get_status (Inr None) q cl s = unauthorized
   \<and> get_status (Inr (Some u)) None cl s = json_response (error_body ''jobId parameter is required'') 400
   \<and> get_status (Inr (Some u)) (Some []) cl s = json_response (error_body ''jobId parameter is required'') 400
   \<and> get_status (Inr (Some u)) (Some (c # cs)) (Inl msg) s = internal_error msg"
  by (simp add: get_status_def)

text \<open>
  C7: when the strategy fails, the job is recorded as failed, yet POST still answers 200 with \<open>success: true\<close> and the message \<open>Successfully collected 0 books\<close> (route.ts lines 60--65 never look at the job's status).
\<close>

theorem post_collect_failed_job_reports_success:
  assumes "safe_parse b = Inr req" and "store_wf s" and "online s"
    and "collect (req_method req) mk (req_keywords req) (req_category req) = Inl e"
  shows "\<exists>s' j. post_collect (Inr (Some u)) (Inr b) mk s = (success_response j [], s')
           \<and> status j = Failed \<and> http_status (success_response j []) = 200
           \<and> json_get (http_body (success_response j [])) ''success'' = Some (JBool True)
           \<and> json_get (http_body (success_response j [])) ''message'' = Some (JStr ''Successfully collected 0 books'')"
proof -
  let ?j = "expected_job (req_method req) mk (req_keywords req) (req_category req) (show_nat (next_seq s)) (now s)"
  obtain s' where run: "post_collect (Inr (Some u)) (Inr b) mk s =
      (success_response ?j (outcome_books (collect (req_method req) mk (req_keywords req) (req_category req))), s')"
    using post_collect_valid_run [OF assms(1-3), of u mk] by blast
  have "outcome_books (collect (req_method req) mk (req_keywords req) (req_category req)) = []"
    using assms(4) by (simp add: outcome_books_def)
  moreover have "status ?j = Failed" using assms(4) by (simp add: expected_job_def Let_def)
  moreover have "collected_message 0 = ''Successfully collected 0 books''"
    by (simp add: collected_message_def show_nat_small)
  ultimately show ?thesis using run by (auto simp: success_response_fields)
qed

text \<open>
  C17: when the job cannot be created (the database is unreachable), POST answers 500 \<open>Failed to create collection job\<close> and the store is unchanged (route.ts lines 53--58).
\<close>

theorem post_collect_job_creation_failed:
  assumes "safe_parse b = Inr req" and "\<not> online s"
  shows "post_collect (Inr (Some u)) (Inr b) mk s =
           (json_response (error_body ''Failed to create collection job'') 500, s)"
  using assms by (simp add: post_collect_def collect_books_def store_create_def)

text \<open>
  C4: GET for the id of a stored job answers 200 with the job's public view, the row's columns renamed as at route.ts lines 115--126.
\<close>

theorem get_status_found:
  assumes "store_wf s" and "online s" and "lookup_job i s = Some j"
  shows "get_status (Inr (Some u)) (Some i) (Inr ()) s = json_response (JObj [(''job'', job_view_json j)]) 200"
proof -
  have "i \<noteq> []" using assms(1,3) find_Some_id [OF assms(3)]
    by (auto simp: store_wf_def list_all_iff issued_id_def parse_nat_def)
  then show ?thesis using assms by (simp add: get_status_def select_single_lookup)
qed

text \<open>
  C9: GET for a non-empty id the store never issued answers 404 \<open>Job not found\<close>, whatever its shape: there is no separate invalid-id answer.
\<close>

theorem get_status_never_issued:
  assumes "store_wf s" and "\<not> issued_id (next_seq s) i" and "i \<noteq> []"
  shows "get_status (Inr (Some u)) (Some i) (Inr ()) s = json_response (error_body ''Job not found'') 404"
proof (cases "online s")
  case True
  have "lookup_job i s = None"
  proof (rule ccontr)
    assume "lookup_job i s \<noteq> None"
    then obtain j where "lookup_job i s = Some j" by blast
    then have "job_id j = i" "j \<in> set (jobs s)" by (simp_all add: find_Some_id)
    with assms(1,2) show False by (auto simp: store_wf_def list_all_iff)
  qed
  with True assms show ?thesis by (simp add: get_status_def select_single_lookup)
next
  case False
  with assms(3) show ?thesis by (simp add: get_status_def select_single_def)
qed

text \<open>
  C8: GET when the database cannot be reached answers 404 \<open>Job not found\<close>, not 500: the handler treats every query error as a missing row (route.ts line 110).
\<close>

theorem get_status_store_unreachable:
  assumes "\<not> online s" and "i \<noteq> []"
  shows "get_status (Inr (Some u)) (Some i) (Inr ()) s = json_response (error_body ''Job not found'') 404"
  using assms by (simp add: get_status_def select_single_def)

text \<open>
  C11: bounds on one POST, whatever its inputs and outcome: the rows already in the table keep their ids and order, at most one row is appended, the id counter advances by at most one, and the store clock advances by at most the marketplace's latency. Each request creates at most one job.
\<close>

theorem post_collect_bounds:
  assumes "post_collect au body mk s = (r, s')"
  shows "take (length (jobs s)) (map job_id (jobs s')) = map job_id (jobs s)
         \<and> length (jobs s') \<le> Suc (length (jobs s)) \<and> next_seq s' \<le> Suc (next_seq s)
         \<and> now s \<le> now s' \<and> now s' \<le> now s + latency mk"
  using assms collect_books_bounds
  by (auto simp: post_collect_def split: sum.splits option.splits prod.splits)

theorem post_collect_valid_witness:
  "safe_parse (request_json \<lparr>req_keywords = ''gardening'', req_category = None, req_method = Api\<rparr>)
     = Inr \<lparr>req_keywords = ''gardening'', req_category = None, req_method = Api\<rparr> \<and>
   store_wf empty_store \<and> online empty_store \<and>
   (\<exists>s'. post_collect (Inr (Some ''user-1''))
           (Inr (request_json \<lparr>req_keywords = ''gardening'', req_category = None, req_method = Api\<rparr>))
           demo_market empty_store =
           (success_response (expected_job Api demo_market ''gardening'' None ''0'' 0) [], s')
         \<and> http_status (fst (post_collect (Inr (Some ''user-1''))
              (Inr (request_json \<lparr>req_keywords = ''gardening'', req_category = None, req_method = Api\<rparr>))
              demo_market empty_store)) = 200
         \<and> job_map s' = (job_map empty_store)(''0'' \<mapsto> expected_job Api demo_market ''gardening'' None ''0'' 0)
         \<and> store_wf s')"
proof -
  have h: "safe_parse (request_json \<lparr>req_keywords = ''gardening'', req_category = None, req_method = Api\<rparr>)
     = Inr \<lparr>req_keywords = ''gardening'', req_category = None, req_method = Api\<rparr>"
    by (simp add: safe_parse_def request_json_def schema_defs)
  have o: "online empty_store" by (simp add: empty_store_def)
  show ?thesis
    using h o store_wf_empty post_collect_valid [OF h store_wf_empty o, of "''user-1''" demo_market]
    by (simp add: empty_store_def show_nat_small outcome_books_def api_collect_def)
qed

theorem post_collect_early_exits_witness:
  "safe_parse (JObj [(''keywords'', JStr '''')])
     = Inl [zod_issue Too_small [''keywords''] ''String must contain at least 1 character(s)''] \<and>
   post_collect (Inr (Some ''user-1'')) (Inr (JObj [(''keywords'', JStr '''')])) demo_market empty_store
     = (invalid_request [zod_issue Too_small [''keywords''] ''String must contain at least 1 character(s)''],
        empty_store) \<and>
   post_collect (Inr None) (Inr (JObj [(''keywords'', JStr '''')])) demo_market empty_store
     = (unauthorized, empty_store)"
proof -
  have h: "safe_parse (JObj [(''keywords'', JStr '''')])
     = Inl [zod_issue Too_small [''keywords''] ''String must contain at least 1 character(s)'']"
    by (simp add: safe_parse_def schema_defs)
  show ?thesis
    using h post_collect_early_exits [OF h, of "''m''" "Inr (JObj [(''keywords'', JStr '''')])" demo_market empty_store "''user-1''"]
    by simp
qed

theorem post_collect_failed_job_reports_success_witness:
  "safe_parse (request_json \<lparr>req_keywords = ''gardening'', req_category = None, req_method = Scraping\<rparr>)
     = Inr \<lparr>req_keywords = ''gardening'', req_category = None, req_method = Scraping\<rparr> \<and>
   store_wf empty_store \<and> online empty_store \<and>
   collect Scraping demo_market ''gardening'' None = Inl (RateLimitError ''anti-automation response'') \<and>
   (\<exists>s' j. post_collect (Inr (Some ''user-1''))
             (Inr (request_json \<lparr>req_keywords = ''gardening'', req_category = None, req_method = Scraping\<rparr>))
             demo_market empty_store = (success_response j [], s')
           \<and> status j = Failed \<and> http_status (success_response j []) = 200
           \<and> json_get (http_body (success_response j [])) ''success'' = Some (JBool True)
           \<and> json_get (http_body (success_response j [])) ''message''
               = Some (JStr ''Successfully collected 0 books''))"
proof -
  have h1: "safe_parse (request_json \<lparr>req_keywords = ''gardening'', req_category = None, req_method = Scraping\<rparr>)
     = Inr \<lparr>req_keywords = ''gardening'', req_category = None, req_method = Scraping\<rparr>"
    by (simp add: safe_parse_def request_json_def schema_defs)
  have h2: "online empty_store" by (simp add: empty_store_def)
  have h3: "collect (req_method \<lparr>req_keywords = ''gardening'', req_category = None, req_method = Scraping\<rparr>)
      demo_market (req_keywords \<lparr>req_keywords = ''gardening'', req_category = None, req_method = Scraping\<rparr>)
      (req_category \<lparr>req_keywords = ''gardening'', req_category = None, req_method = Scraping\<rparr>)
      = Inl (RateLimitError ''anti-automation response'')"
    by (simp add: scrape_collect_def)
  show ?thesis
    using h1 h2 h3 store_wf_empty
      post_collect_failed_job_reports_success [OF h1 store_wf_empty h2 h3, of "''user-1''"]
    by simp
qed

theorem post_collect_job_creation_failed_witness:
  "safe_parse (request_json \<lparr>req_keywords = ''gardening'', req_category = None, req_method = Api\<rparr>)
     = Inr \<lparr>req_keywords = ''gardening'', req_category = None, req_method = Api\<rparr> \<and>
   \<not> online (store_set_online False empty_store) \<and>
   post_collect (Inr (Some ''user-1''))
     (Inr (request_json \<lparr>req_keywords = ''gardening'', req_category = None, req_method = Api\<rparr>))
     demo_market (store_set_online False empty_store)
   = (json_response (error_body ''Failed to create collection job'') 500, store_set_online False empty_store)"
proof -
  have h1: "safe_parse (request_json \<lparr>req_keywords = ''gardening'', req_category = None, req_method = Api\<rparr>)
     = Inr \<lparr>req_keywords = ''gardening'', req_category = None, req_method = Api\<rparr>"
    by (simp add: safe_parse_def request_json_def schema_defs)
  have h2: "\<not> online (store_set_online False empty_store)" by (simp add: store_set_online_def)
  show ?thesis using h1 h2 post_collect_job_creation_failed [OF h1 h2, of "''user-1''" demo_market] by simp
qed

lemma store_wf_demo_store1: "store_wf demo_store1"
  using store_wf_create [OF store_wf_empty, of Api demo_params None] demo_create by simp

theorem get_status_found_witness:
  "store_wf demo_store1 \<and> online demo_store1 \<and> lookup_job ''0'' demo_store1 = Some demo_job \<and>
   get_status (Inr (Some ''user-1'')) (Some ''0'') (Inr ()) demo_store1
     = json_response (JObj [(''job'', job_view_json demo_job)]) 200"
proof -
  have h: "store_wf demo_store1" "online demo_store1" "lookup_job ''0'' demo_store1 = Some demo_job"
    by (rule store_wf_demo_store1) (simp_all add: lookup_job_def new_job_def)
  show ?thesis using h get_status_found [OF h, of "''user-1''"] by simp
qed

theorem get_status_never_issued_witness:
  "store_wf demo_store1 \<and> \<not> issued_id (next_seq demo_store1) ''7'' \<and> ''7'' \<noteq> [] \<and>
   get_status (Inr (Some ''user-1'')) (Some ''7'') (Inr ()) demo_store1
     = json_response (error_body ''Job not found'') 404"
proof -
  have h: "store_wf demo_store1" "\<not> issued_id (next_seq demo_store1) ''7''" "''7'' \<noteq> []"
    by (rule store_wf_demo_store1) (simp_all add: issued_id_def parse_nat_def is_digit_def)
  show ?thesis using h get_status_never_issued [OF h, of "''user-1''"] by simp
qed

theorem get_status_store_unreachable_witness:
  "\<not> online (store_set_online False demo_store1) \<and> ''0'' \<noteq> [] \<and>
   get_status (Inr (Some ''user-1'')) (Some ''0'') (Inr ()) (store_set_online False demo_store1)
     = json_response (error_body ''Job not found'') 404"
proof -
  have h: "\<not> online (store_set_online False demo_store1)" "''0'' \<noteq> []"
    by (simp_all add: store_set_online_def)
  show ?thesis using h get_status_store_unreachable [OF h, of "''user-1''"] by simp
qed

theorem post_collect_bounds_witness:
  "length (jobs (snd (post_collect (Inr (Some ''user-1''))
      (Inr (request_json \<lparr>req_keywords = ''gardening'', req_category = None, req_method = Api\<rparr>))
      demo_market empty_store))) \<le> 1 \<and>
   now (snd (post_collect (Inr (Some ''user-1''))
      (Inr (request_json \<lparr>req_keywords = ''gardening'', req_category = None, req_method = Api\<rparr>))
      demo_market empty_store)) \<le> 3"
  using post_collect_bounds [of "Inr (Some ''user-1'')"
      "Inr (request_json \<lparr>req_keywords = ''gardening'', req_category = None, req_method = Api\<rparr>)"
      demo_market empty_store, OF prod.collapse [symmetric]]
  by (simp add: empty_store_def)

end
