(* ===== verification/Lifecycle.thy ===== *)
theory Lifecycle
  imports Service
begin

text \<open>
  The job lifecycle under concurrency (spec section 5). Many requests share the
  one store; their store operations interleave in any order, and between them
  time passes and the database may go away and come back. \<open>sys_step\<close> is one
  effective store operation by any writer (a \<open>create\<close>, or an \<open>update\<close> with
  any patch that the store accepts) or one environment step; a rejected
  operation leaves the store as it is and is not a step. The reachable stores
  are those a run from the empty table can produce. The synchronous
  orchestrator \<open>collect_books\<close> is one such run. Besides the safety properties of runs
  (status histories, no deletion, fresh ids) the theory shows the invariant that
  a reachable table holds one row per issued id, in order, and termination:
  along any infinite run
  each job's status is eventually constant, by the measure \<open>status_rank\<close>.
\<close>

inductive sys_step :: "job_store \<Rightarrow> job_store \<Rightarrow> bool" where
  create: "store_create jt ps cat s = (Inr j, s') \<Longrightarrow> sys_step s s'"
| update: "store_update i p s = (Inr j, s') \<Longrightarrow> sys_step s s'"
| tick: "sys_step s (store_tick d s)"
| outage: "sys_step s (store_set_online b s)"

inductive reach :: "job_store \<Rightarrow> bool" where
  init: "reach empty_store"
| step: "reach s \<Longrightarrow> sys_step s s' \<Longrightarrow> reach s'"

inductive_cases sys_stepE: "sys_step s s'"

text \<open>A run: each state is one step from the one before.\<close>

fun run_from :: "job_store \<Rightarrow> job_store list \<Rightarrow> bool" where
  "run_from s [] = True"
| "run_from s (t # ts) = (sys_step s t \<and> run_from t ts)"

text \<open>The statuses job \<open>i\<close> shows along a run, from the step that creates it on.\<close>

definition statuses :: "string \<Rightarrow> job_store list \<Rightarrow> job_status list" where
  "statuses i ts = concat (map (\<lambda>s. case job_map s i of None \<Rightarrow> [] | Some j \<Rightarrow> [status j]) ts)"

text \<open>Each status either repeats or is one forward step of the lifecycle.\<close>

fun steps_ok :: "job_status \<Rightarrow> job_status list \<Rightarrow> bool" where
  "steps_ok a [] = True"
| "steps_ok a (b # bs) = ((a = b \<or> status_step a b) \<and> steps_ok b bs)"

text \<open>The status histories a job may show, with repetitions removed.\<close>

fun lifecycle_paths :: "job_status \<Rightarrow> job_status list list" where
  "lifecycle_paths Pending =
     [[Pending], [Pending, Running], [Pending, Running, Completed], [Pending, Running, Failed]]"
| "lifecycle_paths Running = [[Running], [Running, Completed], [Running, Failed]]"
| "lifecycle_paths Completed = [[Completed]]"
| "lifecycle_paths Failed = [[Failed]]"

text \<open>The termination measure of a job's lifecycle: absent, pending, running, terminal.\<close>

definition status_rank :: "job_status option \<Rightarrow> nat" where
  "status_rank x = (case x of None \<Rightarrow> 3 | Some Pending \<Rightarrow> 2 | Some Running \<Rightarrow> 1 | Some _ \<Rightarrow> 0)"

text \<open>The store after the witnesses' job has been started.\<close>

abbreviation demo_running :: job_store where
  "demo_running \<equiv> demo_store1\<lparr>jobs := [demo_job\<lparr>status := Running\<rparr>]\<rparr>"

abbreviation demo_clock_run :: "nat \<Rightarrow> job_store" where
  "demo_clock_run n \<equiv> demo_store1\<lparr>now := n\<rparr>"

section \<open>Single steps and runs\<close>

lemma store_update_step:
  "store_update i p s = (Inr j', s') \<Longrightarrow>
   \<exists>j. lookup_job i s = Some j \<and> (status j' = status j \<or> status_step (status j) (status j'))
       \<and> job_id j' = job_id j \<and> job_type j' = job_type j \<and> parameters j' = parameters j
       \<and> category_id j' = category_id j \<and> created_at j' = created_at j"
  by (erule store_update_cases) (auto simp: patch_allowed_def)

lemma job_map_create_keeps:
  "store_create jt ps cat s = (Inr j, s') \<Longrightarrow> job_map s i = Some x \<Longrightarrow> job_map s' i = Some x"
  by (auto simp: store_create_Inr job_map_def)

lemma job_map_create_new:
  "store_create jt ps cat s = (Inr j, s') \<Longrightarrow> job_map s i = None \<Longrightarrow>
   job_map s' i = None \<or> (job_map s' i = Some j \<and> status j = Pending)"
  by (auto simp: store_create_Inr job_map_def map_add_def split: option.splits)

lemma job_map_set_online [simp]: "job_map (store_set_online b s) = job_map s"
  by (simp add: job_map_def store_set_online_def)

lemma sys_step_present:
  assumes "sys_step s t" and "job_map s i = Some j"
  shows "\<exists>j'. job_map t i = Some j' \<and> (status j' = status j \<or> status_step (status j) (status j'))
              \<and> job_id j' = job_id j \<and> job_type j' = job_type j \<and> parameters j' = parameters j
              \<and> created_at j' = created_at j"
  using assms(1)
proof cases
  case (create jt ps cat j0)
  then show ?thesis using job_map_create_keeps assms(2) by blast
next
  case (update i' p j')
  show ?thesis
  proof (cases "i' = i")
    case True
    obtain j0 where l: "lookup_job i s = Some j0"
      and st: "(status j' = status j0 \<or> status_step (status j0) (status j'))
               \<and> job_id j' = job_id j0 \<and> job_type j' = job_type j0 \<and> parameters j' = parameters j0
               \<and> created_at j' = created_at j0"
      using store_update_step [OF update] True by blast
    have "j0 = j" using l assms(2) by (simp add: lookup_job_job_map)
    then show ?thesis using job_map_update [OF update] True st by auto
  next
    case False
    then show ?thesis using job_map_update [OF update] assms(2) by auto
  qed
qed (use assms(2) in auto)

lemma sys_step_absent:
  assumes "sys_step s t" and "job_map s i = None"
  shows "job_map t i = None \<or> (\<exists>j'. job_map t i = Some j' \<and> status j' = Pending)"
  using assms(1)
proof cases
  case (create jt ps cat j0)
  then show ?thesis using job_map_create_new assms(2) by blast
next
  case (update i' p j')
  have "i' \<noteq> i"
    using store_update_step [OF update] assms(2) by (auto simp: lookup_job_job_map)
  then show ?thesis using job_map_update [OF update] assms(2) by auto
qed (use assms(2) in auto)

lemma statuses_Nil [simp]: "statuses i [] = []"
  by (simp add: statuses_def)

lemma statuses_Cons [simp]:
  "statuses i (t # ts) = (case job_map t i of None \<Rightarrow> [] | Some j \<Rightarrow> [status j]) @ statuses i ts"
  by (simp add: statuses_def)

lemma run_present:
  "run_from s ts \<Longrightarrow> job_map s i = Some j \<Longrightarrow> steps_ok (status j) (statuses i ts)"
proof (induction ts arbitrary: s j)
  case (Cons t ts)
  then obtain j' where "job_map t i = Some j'" and "status j' = status j \<or> status_step (status j) (status j')"
    using sys_step_present [of s t i j] by auto
  with Cons show ?case by auto
qed simp

lemma run_absent:
  "run_from s ts \<Longrightarrow> job_map s i = None \<Longrightarrow>
   statuses i ts = [] \<or> (\<exists>xs. statuses i ts = Pending # xs \<and> steps_ok Pending xs)"
proof (induction ts arbitrary: s)
  case (Cons t ts)
  then have st: "sys_step s t" and run: "run_from t ts" by simp_all
  show ?case
  proof (cases "job_map t i")
    case None
    with Cons.IH run show ?thesis by simp
  next
    case (Some j')
    then have "status j' = Pending" using sys_step_absent [OF st Cons.prems(2)] by auto
    with Some run_present [OF run Some] show ?thesis by simp
  qed
qed simp

lemma steps_ok_paths: "steps_ok a xs \<Longrightarrow> remdups_adj (a # xs) \<in> set (lifecycle_paths a)"
proof (induction xs arbitrary: a)
  case Nil
  then show ?case by (cases a) simp_all
next
  case (Cons b bs)
  then have ab: "a = b \<or> status_step a b" and rest: "remdups_adj (b # bs) \<in> set (lifecycle_paths b)"
    by simp_all
  show ?case
  proof (cases "a = b")
    case True
    with rest show ?thesis by simp
  next
    case False
    with ab have "status_step a b" by simp
    with False rest show ?thesis by (cases a; cases b) auto
  qed
qed

lemma store_create_wf_eq: "store_create jt ps cat s = (r, s') \<Longrightarrow> store_wf s \<Longrightarrow> store_wf s'"
  using store_wf_create [of s jt ps cat] by simp

lemma store_update_wf_eq: "store_update i p s = (r, s') \<Longrightarrow> store_wf s \<Longrightarrow> store_wf s'"
  using store_wf_update [of s i p] by simp

lemma finish_job_wf_eq: "finish_job i r s = (x, s') \<Longrightarrow> store_wf s \<Longrightarrow> store_wf s'"
  by (auto simp: finish_job_def split: sum.splits prod.splits dest: store_update_wf_eq)

lemma sys_step_store_wf: "sys_step s s' \<Longrightarrow> store_wf s \<Longrightarrow> store_wf s'"
  by (induction rule: sys_step.induct)
     (auto dest: store_create_wf_eq store_update_wf_eq simp: store_wf_tick store_wf_set_online)

lemma reach_store_wf: "reach s \<Longrightarrow> store_wf s"
  by (induction rule: reach.induct) (auto intro: store_wf_empty sys_step_store_wf)

lemma reach_steps: "sys_step\<^sup>*\<^sup>* s t \<Longrightarrow> reach s \<Longrightarrow> reach t"
  by (induction rule: rtranclp_induct) (auto intro: reach.step)

lemma store_op_steps:
  "store_update i p s = (r, s') \<Longrightarrow> sys_step\<^sup>*\<^sup>* s s'"
  by (cases r) (auto dest: store_update_Inl intro: sys_step.update)

lemma finish_job_steps: "finish_job i r s = (x, s') \<Longrightarrow> sys_step\<^sup>*\<^sup>* s s'"
  by (auto simp: finish_job_def split: sum.splits prod.splits dest: store_op_steps)

lemma sys_step_terminal:
  assumes "sys_step s t" and "job_map s i = Some j" and "terminal (status j)"
  shows "job_map t i = Some j"
  using assms(1)
proof cases
  case (create jt ps cat j0)
  then show ?thesis using job_map_create_keeps assms(2) by blast
next
  case (update i' p j')
  show ?thesis
  proof (cases "i' = i")
    case True
    from update show ?thesis
    proof (cases rule: store_update_cases)
      case (applied j0)
      then have "j0 = j" using assms(2) True by (simp add: lookup_job_job_map)
      with applied(4) assms(3) show ?thesis by (simp add: patch_allowed_def status_step_terminal)
    qed (use assms(2) in simp_all)
  next
    case False
    then show ?thesis using job_map_update [OF update] assms(2) by auto
  qed
qed (use assms(2) in auto)

lemma collect_books_steps:
  "collect_books m mk kw cat s = (r, s') \<Longrightarrow> sys_step\<^sup>*\<^sup>* s s'"
proof -
  assume run: "collect_books m mk kw cat s = (r, s')"
  show ?thesis
  proof (cases "store_create m \<lparr>param_keywords = kw, param_category = cat\<rparr> cat s")
    case (Pair c s1)
    show ?thesis
    proof (cases c)
      case (Inl e)
      with Pair run show ?thesis by (auto simp: collect_books_def dest: store_create_Inl)
    next
      case (Inr j)
      have c1: "sys_step s s1" using Pair Inr by (auto intro: sys_step.create)
      obtain u s2 where u: "store_update (job_id j) running_patch s1 = (u, s2)" by fastforce
      have c2: "sys_step\<^sup>*\<^sup>* s1 s2" using u by (rule store_op_steps)
      show ?thesis
      proof (cases u)
        case (Inl e)
        with run Pair Inr u have "s' = s2" by (simp add: collect_books_def)
        with c1 c2 show ?thesis by simp
      next
        case (Inr j2)
        with run Pair \<open>c = Inr j\<close> u
        have f: "finish_job (job_id j) (collect m mk kw cat) (store_tick (latency mk) s2) = (r, s')"
          by (simp add: collect_books_def)
        have "sys_step s2 (store_tick (latency mk) s2)" by (rule sys_step.tick)
        with c1 c2 finish_job_steps [OF f] show ?thesis
          by (meson converse_rtranclp_into_rtranclp rtranclp_trans)
      qed
    qed
  qed
qed

lemma steps_terminal:
  assumes "sys_step\<^sup>*\<^sup>* s t" and "job_map s i = Some j" and "terminal (status j)"
  shows "job_map t i = Some j"
  using assms(1)
  by (induction rule: rtranclp_induct) (use assms(2,3) sys_step_terminal in auto)

lemma reach_ids: "reach s \<Longrightarrow> map job_id (jobs s) = map show_nat [0..<next_seq s]"
proof (induction rule: reach.induct)
  case init
  then show ?case by (simp add: empty_store_def)
next
  case (step s s')
  from step.hyps(2) show ?case
  proof (cases rule: sys_step.cases)
    case (create jt ps cat j)
    then show ?thesis using step.IH by (auto simp: store_create_def Let_def new_job_def split: if_splits)
  next
    case (update i p j)
    from update show ?thesis
    proof (cases rule: store_update_cases)
      case (applied j0)
      then show ?thesis using step.IH find_Some_id [OF applied(2)]
        by (simp add: map_job_id_replace_job)
    qed (use step.IH in simp_all)
  qed (use step.IH in \<open>simp_all add: store_tick_def store_set_online_def\<close>)
qed

lemma status_step_rank: "status_step a b \<Longrightarrow> status_rank (Some b) < status_rank (Some a)"
  by (cases a; cases b) (simp_all add: status_rank_def)

lemma sys_step_rank:
  assumes "sys_step s t"
  shows "status_rank (map_option status (job_map t i)) \<le> status_rank (map_option status (job_map s i))
         \<and> (map_option status (job_map t i) \<noteq> map_option status (job_map s i) \<longrightarrow>
            status_rank (map_option status (job_map t i)) < status_rank (map_option status (job_map s i)))"
proof (cases "job_map s i")
  case None
  then show ?thesis using sys_step_absent [OF assms None] by (auto simp: status_rank_def)
next
  case (Some j)
  then obtain j' where "job_map t i = Some j'" "status j' = status j \<or> status_step (status j) (status j')"
    using sys_step_present [OF assms Some] by blast
  then show ?thesis using Some status_step_rank [of "status j" "status j'"] by auto
qed

section \<open>Properties of the lifecycle\<close>

text \<open>
  C21: in every reachable store every job satisfies the field constraints of spec section 3: no \<open>completedAt\<close> while pending or running, an \<open>errorMessage\<close> only when failed, and \<open>createdAt \<le> startedAt \<le> completedAt \<le> now\<close>.
\<close>

theorem reachable_jobs_wellformed:
  assumes "reach s" and "lookup_job i s = Some j"
  shows "(status j = Pending \<or> status j = Running \<longrightarrow> completed_at j = None)
       \<and> (error_message j \<noteq> None \<longrightarrow> status j = Failed)
       \<and> created_at j \<le> now s
       \<and> (\<forall>x. started_at j = Some x \<longrightarrow> created_at j \<le> x \<and> x \<le> now s)
       \<and> (\<forall>y. completed_at j = Some y \<longrightarrow> created_at j \<le> y \<and> y \<le> now s)
       \<and> (\<forall>x y. started_at j = Some x \<longrightarrow> completed_at j = Some y \<longrightarrow> x \<le> y)"
proof -
  have "job_wf (now s) j"
    using reach_store_wf [OF assms(1)] find_Some_id [OF assms(2)]
    by (auto simp: store_wf_def list_all_iff)
  then show ?thesis by (auto simp: job_wf_def stamp_ok_def terminal_def)
qed

text \<open>
  C6: along any interleaved run from the empty store, the statuses a job shows, with repetitions removed, are a prefix of pending, running, completed or of pending, running, failed: never skipping running, never regressing.
\<close>

theorem job_status_history:
  assumes "run_from empty_store ts"
  shows "statuses i ts = [] \<or> remdups_adj (statuses i ts) \<in> set (lifecycle_paths Pending)"
proof -
  have "job_map empty_store i = None" by (simp add: job_map_def empty_store_def)
  from run_absent [OF assms this]
  consider (none) "statuses i ts = []" | (some) xs where "statuses i ts = Pending # xs" "steps_ok Pending xs"
    by blast
  then show ?thesis
  proof cases
    case (some xs)
    have "remdups_adj (Pending # xs) \<in> set (lifecycle_paths Pending)"
      by (rule steps_ok_paths) (rule some(2))
    then show ?thesis unfolding some(1) by blast
  qed simp
qed

text \<open>
  C22: over any number of steps no job is deleted, its status never moves backward, and its id, type, parameters and creation time never change.
\<close>

theorem steps_preserve_jobs:
  assumes "sys_step\<^sup>*\<^sup>* s t" and "job_map s i = Some j"
  shows "\<exists>j'. job_map t i = Some j' \<and> status j \<le> status j' \<and> job_id j' = job_id j
              \<and> job_type j' = job_type j \<and> parameters j' = parameters j \<and> created_at j' = created_at j"
  using assms(1)
proof (induction rule: rtranclp_induct)
  case base
  then show ?case using assms(2) by simp
next
  case (step u v)
  then obtain j1 where j1: "job_map u i = Some j1" "status j \<le> status j1" "job_id j1 = job_id j"
    "job_type j1 = job_type j" "parameters j1 = parameters j" "created_at j1 = created_at j"
    by blast
  obtain j2 where j2: "job_map v i = Some j2" "status j2 = status j1 \<or> status_step (status j1) (status j2)"
    "job_id j2 = job_id j1" "job_type j2 = job_type j1" "parameters j2 = parameters j1"
    "created_at j2 = created_at j1"
    using sys_step_present [OF step.hyps(2) j1(1)] by blast
  have "status j1 \<le> status j2" using j2(2) status_step_less [of "status j1" "status j2"] by auto
  then have "status j \<le> status j2" using j1(2) by (rule order_trans [rotated])
  with j1 j2 show ?case by auto
qed

text \<open>
  C14: termination of each job's lifecycle. Along any infinite run of the whole system (requests of any number of callers, clock ticks and outages, interleaved in any order) the status of every job is eventually constant: a job changes status only finitely often. The measure is the rank absent 3, pending 2, running 1, terminal 0, which no step increases and every status change decreases.
\<close>

theorem job_status_eventually_constant:
  assumes "\<forall>n. sys_step (f n) (f (Suc n))"
  shows "\<exists>N. \<forall>n\<ge>N. map_option status (job_map (f n) i) = map_option status (job_map (f N) i)"
proof -
  let ?st = "\<lambda>n. map_option status (job_map (f n) i)"
  have dec: "\<And>n. status_rank (?st (Suc n)) \<le> status_rank (?st n)"
    using sys_step_rank assms by blast
  obtain M where M: "\<forall>n\<ge>M. status_rank (?st n) = status_rank (?st M)"
    using antimono_nat_stabilises [of "\<lambda>n. status_rank (?st n)", OF dec] by blast
  have "?st (M + k) = ?st M" for k
  proof (induction k)
    case (Suc k)
    have "status_rank (?st (Suc (M + k))) = status_rank (?st (M + k))" using M
      by (metis le_add1 add_Suc_right)
    then have "?st (Suc (M + k)) = ?st (M + k)" using sys_step_rank [OF assms [rule_format, of "M + k"], of i]
      by fastforce
    with Suc.IH show ?case by simp
  qed simp
  then show ?thesis by (metis le_add_diff_inverse)
qed

lemma reach_demo_store1: "reach demo_store1"
  by (rule reach.step [OF reach.init sys_step.create [OF demo_create]])

theorem reachable_jobs_wellformed_witness:
  "reach demo_store1 \<and> lookup_job ''0'' demo_store1 = Some demo_job \<and>
   completed_at demo_job = None \<and> error_message demo_job = None \<and> created_at demo_job \<le> now demo_store1"
proof -
  have h: "reach demo_store1" "lookup_job ''0'' demo_store1 = Some demo_job"
    by (rule reach_demo_store1) (simp add: lookup_job_def new_job_def)
  have p: "status demo_job = Pending" by simp
  show ?thesis using h p reachable_jobs_wellformed [OF h] by auto
qed

lemma demo_run: "run_from empty_store [demo_store1, demo_running]"
  using sys_step.create [OF demo_create] sys_step.update [OF demo_start] by simp

theorem job_status_history_witness:
  "run_from empty_store [demo_store1, demo_running] \<and>
   statuses ''0'' [demo_store1, demo_running] = [Pending, Running] \<and>
   remdups_adj (statuses ''0'' [demo_store1, demo_running]) \<in> set (lifecycle_paths Pending)"
proof -
  have s: "statuses ''0'' [demo_store1, demo_running] = [Pending, Running]"
    by (simp add: job_map_def new_job_def)
  show ?thesis using demo_run s job_status_history [OF demo_run, of "''0''"] by simp
qed

theorem steps_preserve_jobs_witness:
  "sys_step\<^sup>*\<^sup>* demo_store1 demo_running \<and> job_map demo_store1 ''0'' = Some demo_job \<and>
   (\<exists>j'. job_map demo_running ''0'' = Some j' \<and> status demo_job \<le> status j' \<and> job_id j' = job_id demo_job
         \<and> job_type j' = job_type demo_job \<and> parameters j' = parameters demo_job
         \<and> created_at j' = created_at demo_job)"
proof -
  have h: "sys_step\<^sup>*\<^sup>* demo_store1 demo_running" "job_map demo_store1 ''0'' = Some demo_job"
    using sys_step.update [OF demo_start] by (auto simp: job_map_def new_job_def)
  show ?thesis using h steps_preserve_jobs [OF h] by blast
qed

theorem job_status_eventually_constant_witness:
  "(\<forall>n. sys_step (demo_clock_run n) (demo_clock_run (Suc n))) \<and>
   (\<exists>N. map_option status (job_map (demo_clock_run (N + 7)) ''0'') = map_option status (job_map (demo_clock_run N) ''0''))"
proof -
  have h: "\<forall>n. sys_step (demo_clock_run n) (demo_clock_run (Suc n))"
  proof
    fix n
    have "store_tick 1 (demo_clock_run n) = demo_clock_run (Suc n)" by (simp add: store_tick_def)
    then show "sys_step (demo_clock_run n) (demo_clock_run (Suc n))" by (metis sys_step.tick)
  qed
  obtain N where "\<forall>n\<ge>N. map_option status (job_map (demo_clock_run n) ''0'') = map_option status (job_map (demo_clock_run N) ''0'')"
    using job_status_eventually_constant [OF h] by blast
  then have "map_option status (job_map (demo_clock_run (N + 7)) ''0'') = map_option status (job_map (demo_clock_run N) ''0'')"
    using le_add1 by blast
  with h show ?thesis by blast
qed

end
