(* ===== verification/Orchestrator.thy ===== *)
theory Orchestrator
  imports Lifecycle
begin

text \<open>
  The orchestrator of one request (\<open>collectBooksViaApi\<close> /
  \<open>collectBooksViaScraping\<close>, spec 4.3 and 5) as a small-step program, so
  that other requests, clock ticks and database outages can interleave between
  its store calls. \<open>orch_pc\<close> is its program point: before \<open>create\<close>, before
  the \<open>running\<close> update, during the strategy's network call (the one
  suspension point of spec 5), before the final update, and done with the
  value \<open>collect_books\<close> returns (and the id of its job, if one was created).
  \<open>orch_next\<close> performs one store call. The environment may take any step of
  \<open>sys_step\<close> that leaves this request's job row unchanged (\<open>rely_ok\<close>: the job
  is mutated only by its orchestrator, spec 3). Under interference the invariant \<open>orch_inv\<close> relates the
  program point to the job's row, and shows what the synchronous model cannot
  reach: a store failure after the job was created is reported as an error and
  leaves the job observably pending or running.
\<close>

datatype orch_pc =
    OCreate
  | OStart string
  | OCollect string
  | OFinish string
  | ODone "string option" "string + collect_result"

fun orch_next ::
  "collect_method \<Rightarrow> marketplace \<Rightarrow> string \<Rightarrow> string option \<Rightarrow> orch_pc \<Rightarrow> job_store \<Rightarrow> orch_pc \<times> job_store" where
  "orch_next m mk kw cat OCreate s =
     (case store_create m \<lparr>param_keywords = kw, param_category = cat\<rparr> cat s of
        (Inl _, s1) \<Rightarrow> (ODone None (Inr \<lparr>result_job = None, result_books = []\<rparr>), s1)
      | (Inr j, s1) \<Rightarrow> (OStart (job_id j), s1))"
| "orch_next m mk kw cat (OStart i) s =
     (case store_update i running_patch s of
        (Inl e, s2) \<Rightarrow> (ODone (Some i) (Inl (store_error_message e)), s2)
      | (Inr _, s2) \<Rightarrow> (OCollect i, s2))"
| "orch_next m mk kw cat (OCollect i) s = (OFinish i, store_tick (latency mk) s)"
| "orch_next m mk kw cat (OFinish i) s =
     (case finish_job i (collect m mk kw cat) s of (r, s3) \<Rightarrow> (ODone (Some i) r, s3))"
| "orch_next m mk kw cat (ODone oi r) s = (ODone oi r, s)"

text \<open>The job a program point is working on.\<close>

fun orch_job :: "orch_pc \<Rightarrow> string option" where
  "orch_job (OStart i) = Some i"
| "orch_job (OCollect i) = Some i"
| "orch_job (OFinish i) = Some i"
| "orch_job (ODone oi r) = oi"
| "orch_job OCreate = None"

definition rely_ok :: "orch_pc \<Rightarrow> job_store \<Rightarrow> job_store \<Rightarrow> bool" where
  "rely_ok pc s s' = (case orch_job pc of None \<Rightarrow> True | Some i \<Rightarrow> job_map s' i = job_map s i)"

text \<open>One step of the request's orchestrator, or one step of the rest of the system that leaves its job alone.\<close>

inductive osys_step ::
  "collect_method \<Rightarrow> marketplace \<Rightarrow> string \<Rightarrow> string option \<Rightarrow> orch_pc \<times> job_store \<Rightarrow> orch_pc \<times> job_store \<Rightarrow> bool"
  for m mk kw cat where
  own: "osys_step m mk kw cat (pc, s) (orch_next m mk kw cat pc s)"
| env: "sys_step s s' \<Longrightarrow> rely_ok pc s s' \<Longrightarrow> osys_step m mk kw cat (pc, s) (pc, s')"

text \<open>What each program point knows about its job's row.\<close>

fun orch_inv :: "orch_pc \<Rightarrow> job_store \<Rightarrow> bool" where
  "orch_inv OCreate s = True"
| "orch_inv (OStart i) s = (case job_map s i of None \<Rightarrow> False | Some j \<Rightarrow> status j = Pending)"
| "orch_inv (OCollect i) s = (case job_map s i of None \<Rightarrow> False | Some j \<Rightarrow> status j = Running)"
| "orch_inv (OFinish i) s = (case job_map s i of None \<Rightarrow> False | Some j \<Rightarrow> status j = Running)"
| "orch_inv (ODone None r) s = (r = Inr \<lparr>result_job = None, result_books = []\<rparr>)"
| "orch_inv (ODone (Some i) (Inl e)) s =
     (case job_map s i of None \<Rightarrow> False | Some j \<Rightarrow> \<not> terminal (status j))"
| "orch_inv (ODone (Some i) (Inr res)) s =
     (case result_job res of None \<Rightarrow> False
      | Some j \<Rightarrow> job_id j = i \<and> job_map s i = Some j \<and> terminal (status j))"

text \<open>The witnesses' request: the API strategy for \<open>gardening\<close> on the empty store.\<close>

abbreviation demo_orch :: "orch_pc \<times> job_store \<Rightarrow> orch_pc \<times> job_store" where
  "demo_orch \<equiv> \<lambda>(pc, s). orch_next Api demo_market ''gardening'' None pc s"

abbreviation demo_started :: job where
  "demo_started \<equiv> apply_patch 0 running_patch demo_job"

abbreviation demo_collecting :: job_store where
  "demo_collecting \<equiv> \<lparr>jobs = [demo_started], next_seq = 1, now = 3, online = True\<rparr>"


lemma orch_next_wf: "store_wf s \<Longrightarrow> store_wf (snd (orch_next m mk kw cat pc s))"
  by (cases pc)
     (auto simp: store_wf_tick split: prod.splits sum.splits
       dest: store_create_wf_eq store_update_wf_eq finish_job_wf_eq)

lemma job_map_id: "job_map s i = Some j \<Longrightarrow> job_id j = i"
  using find_Some_id [of i s j] by (simp add: lookup_job_job_map)

lemma store_update_pc_cases:
  assumes "store_update i p s = (r, s')" and "job_map s i = Some j" and "p_status p \<noteq> status j"
    and "patch_allowed j p"
  shows "(\<not> online s \<and> r = Inl StoreUnavailable \<and> s' = s)
         \<or> (online s \<and> r = Inr (apply_patch (now s) p j) \<and> job_map s' i = Some (apply_patch (now s) p j))"
  using assms(1)
proof (cases rule: store_update_cases)
  case (applied j')
  then have jj: "j' = j" using assms(2) by (simp add: lookup_job_job_map)
  have "store_update i p s = (Inr (apply_patch (now s) p j), s')" using assms(1) applied jj by simp
  then show ?thesis using applied jj job_map_update by simp
qed (use assms in \<open>simp_all add: lookup_job_job_map\<close>)

lemma finish_job_inv:
  assumes "finish_job i r s = (x, s')" and "job_map s i = Some j" and "status j = Running"
  shows "orch_inv (ODone (Some i) x) s'"
proof (cases r)
  case (Inl e)
  obtain u where u: "store_update i (failed_patch (show_collect_error e)) s = (u, s')"
    and x: "x = (case u of Inl e' \<Rightarrow> Inl (store_error_message e') | Inr j' \<Rightarrow> Inr \<lparr>result_job = Some j', result_books = []\<rparr>)"
    using assms(1) Inl by (auto simp: finish_job_def split: prod.splits sum.splits)
  from store_update_pc_cases [OF u assms(2)] assms(3) show ?thesis
    using assms(2) x job_map_id by (auto simp: failed_patch_def patch_allowed_def terminal_def)
next
  case (Inr bs)
  obtain u where u: "store_update i (completed_patch (length bs)) s = (u, s')"
    and x: "x = (case u of Inl e' \<Rightarrow> Inl (store_error_message e') | Inr j' \<Rightarrow> Inr \<lparr>result_job = Some j', result_books = bs\<rparr>)"
    using assms(1) Inr by (auto simp: finish_job_def split: prod.splits sum.splits)
  from store_update_pc_cases [OF u assms(2)] assms(3) show ?thesis
    using assms(2) x job_map_id by (auto simp: completed_patch_def patch_allowed_def terminal_def)
qed

lemma orch_inv_own:
  assumes "store_wf s" and "orch_inv pc s"
  shows "orch_inv (fst (orch_next m mk kw cat pc s)) (snd (orch_next m mk kw cat pc s))"
proof (cases pc)
  case OCreate
  obtain c s1 where c: "store_create m \<lparr>param_keywords = kw, param_category = cat\<rparr> cat s = (c, s1)"
    by fastforce
  show ?thesis
  proof (cases c)
    case (Inr j)
    have "job_map s1 (job_id j) = Some j" using job_map_create [OF assms(1)] c Inr by simp
    moreover have "status j = Pending" using c Inr by (simp add: store_create_Inr)
    ultimately show ?thesis using OCreate c Inr by simp
  qed (use OCreate c in simp)
next
  case (OStart i)
  then obtain j where j: "job_map s i = Some j" "status j = Pending"
    using assms(2) by (auto split: option.splits)
  obtain u s2 where u: "store_update i running_patch s = (u, s2)" by fastforce
  from store_update_pc_cases [OF u j(1)] j(2) show ?thesis
    using OStart u j by (auto simp: running_patch_def patch_allowed_def terminal_def)
next
  case (OFinish i)
  then obtain j where j: "job_map s i = Some j" "status j = Running"
    using assms(2) by (auto split: option.splits)
  obtain x s3 where f: "finish_job i (collect m mk kw cat) s = (x, s3)" by fastforce
  show ?thesis using finish_job_inv [OF f j] OFinish f by simp
qed (use assms(2) in auto)

lemma orch_inv_env:
  assumes "rely_ok pc s s'" and "orch_inv pc s"
  shows "orch_inv pc s'"
  using assms
proof (cases pc)
  case (ODone oi r)
  then show ?thesis using assms by (cases oi; cases r) (auto simp: rely_ok_def split: option.splits)
qed (auto simp: rely_ok_def)

lemma osys_steps_inv:
  assumes "(osys_step m mk kw cat)\<^sup>*\<^sup>* (OCreate, s0) c" and "store_wf s0"
  shows "store_wf (snd c) \<and> orch_inv (fst c) (snd c)"
  using assms(1)
proof (induction rule: rtranclp_induct)
  case (step c c')
  from step.hyps(2) show ?case
  proof cases
    case (own pc s)
    then show ?thesis using step.IH orch_next_wf orch_inv_own by simp
  next
    case (env s s' pc)
    then show ?thesis using step.IH sys_step_store_wf orch_inv_env by auto
  qed
qed (simp add: assms(2))

lemma own_steps:
  "(osys_step m mk kw cat)\<^sup>*\<^sup>* c (((\<lambda>(pc, s). orch_next m mk kw cat pc s) ^^ n) c)"
proof (induction n)
  case (Suc n)
  obtain pc s where "((\<lambda>(pc, s). orch_next m mk kw cat pc s) ^^ n) c = (pc, s)" by fastforce
  with Suc show ?case by (auto intro: rtranclp.rtrancl_into_rtrancl osys_step.own)
qed simp

lemma demo_orch_3: "(demo_orch ^^ 3) (OCreate, empty_store) = (OFinish ''0'', demo_collecting)"
  by (simp add: numeral_eq_Suc empty_store_def store_create_def Let_def show_nat_small
      store_update_def lookup_job_def new_job_def running_patch_def patch_allowed_def
      replace_job_def apply_patch_def store_tick_def)



text \<open>
  C18: a database outage while the strategy's network call is in flight: the final update fails, the orchestrator finishes with the error \<open>Job store unavailable\<close>, and the job stays running in the table, where GET sees it once the database is back. (The 500 the route's \<open>catch\<close> then sends is \<open>post_collect\<close>'s catch branch, not part of this theorem.)
\<close>

theorem orch_outage_during_collect:
  assumes "(osys_step m mk kw cat)\<^sup>*\<^sup>* (OCreate, s0) (OFinish i, s)" and "store_wf s0" and "\<not> online s"
  shows "orch_next m mk kw cat (OFinish i) s = (ODone (Some i) (Inl ''Job store unavailable''), s)
         \<and> (\<exists>j. job_map s i = Some j \<and> status j = Running)"
proof -
  have "orch_inv (OFinish i) s" using osys_steps_inv [OF assms(1,2)] by simp
  then obtain j where "job_map s i = Some j" "status j = Running" by (auto split: option.splits)
  moreover have "finish_job i r s = (Inl ''Job store unavailable'', s)" for r
    using assms(3) by (cases r) (simp_all add: finish_job_def store_update_def store_error_message_def)
  ultimately show ?thesis by simp
qed


theorem orch_outage_during_collect_witness:
  "(osys_step Api demo_market ''gardening'' None)\<^sup>*\<^sup>* (OCreate, empty_store)
      (OFinish ''0'', store_set_online False demo_collecting)
   \<and> store_wf empty_store \<and> \<not> online (store_set_online False demo_collecting)
   \<and> orch_next Api demo_market ''gardening'' None (OFinish ''0'') (store_set_online False demo_collecting)
     = (ODone (Some ''0'') (Inl ''Job store unavailable''), store_set_online False demo_collecting)
   \<and> (\<exists>j. job_map (store_set_online False demo_collecting) ''0'' = Some j \<and> status j = Running)"
proof -
  have r3: "(osys_step Api demo_market ''gardening'' None)\<^sup>*\<^sup>* (OCreate, empty_store) (OFinish ''0'', demo_collecting)"
    using own_steps [of Api demo_market "''gardening''" None "(OCreate, empty_store)" 3] demo_orch_3 by simp
  have e: "osys_step Api demo_market ''gardening'' None (OFinish ''0'', demo_collecting)
             (OFinish ''0'', store_set_online False demo_collecting)"
    by (rule osys_step.env)
       (rule sys_step.outage, simp only: rely_ok_def orch_job.simps option.case job_map_set_online)
  have off: "\<not> online (store_set_online False demo_collecting)" by (simp add: store_set_online_def)
  have run: "(osys_step Api demo_market ''gardening'' None)\<^sup>*\<^sup>* (OCreate, empty_store)
      (OFinish ''0'', store_set_online False demo_collecting)"
    using r3 e by (rule rtranclp.rtrancl_into_rtrancl)
  have t: "orch_next Api demo_market ''gardening'' None (OFinish ''0'') (store_set_online False demo_collecting)
     = (ODone (Some ''0'') (Inl ''Job store unavailable''), store_set_online False demo_collecting)
   \<and> (\<exists>j. job_map (store_set_online False demo_collecting) ''0'' = Some j \<and> status j = Running)"
    by (rule orch_outage_during_collect [OF run store_wf_empty off])
  show ?thesis using run store_wf_empty off t by blast
qed

end
