(* ===== verification/Faq.thy ===== *)
theory Faq
  imports Prelude
begin

text \<open>
  The FAQ accordion of \<^verbatim>\<open>src/components/FAQ.tsx\<close>. \<open>faqList\<close> is the
  fixed list of questions and answers (an answer is the text its paragraph
  renders: JSX joins the source lines with single spaces and decodes
  \<open>&apos;\<close> and \<open>&quot;\<close>). Each \<open>FaqItem\<close> keeps one piece of state,
  \<open>isOpen\<close>, initially false, flipped by a click on its button; \<open>FAQ\<close>
  renders one item per entry, so the page's state is the list of the items'
  flags. What an item renders is the view record: its \<open>aria-expanded\<close>, the
  class strings its template literals build, and the panel's style.
\<close>

record faq_item =
  question :: string
  answer :: string

definition faq_list :: "faq_item list" where
  \<open>faq_list = [
    \<lparr>question = ''How does KDP Seek find profitable niches?'',
     answer = ''KDP Seek automatically scans Amazon's data to analyze thousands of book categories. We track competition levels (book count, quality metrics), demand signals (search volume, sales rank trends), publishing velocity, price points, review patterns, and seasonal trends. Our algorithm scores and ranks niches based on profitability potential, giving you actionable intelligence like "pet training for senior dogs" has only 47 quality books but growing search volume.''\<rparr>,
    \<lparr>question = ''What data do you analyze?'',
     answer = ''We analyze publishing velocity (how many books are published per category over time), price points, review patterns, seasonal trends, competition metrics (book count, average ratings, review counts), and revenue potential based on search volume and historical sales data patterns. This goes far beyond basic keyword research.''\<rparr>,
    \<lparr>question = ''How much does it cost?'',
     answer = ''Pricing ranges from $29-99/month depending on features. Our plans are designed for the 2+ million active KDP publishers who treat this as a business, not a hobby. Each tier offers different levels of niche searches, detailed analytics, and export capabilities.''\<rparr>,
    \<lparr>question = ''Can I see examples of successful niches?'',
     answer = ''Yes! Every successful book published using KDP Seek becomes a case study. We showcase these with before/after metrics and testimonials to show how automated niche discovery led to bestsellers. In a market projected to hit $12 billion by 2027, we help you find the niches that separate profitable publishers from the wannabes.''\<rparr>]\<close>

text \<open>The panel's \<open>maxHeight\<close>: the content's \<open>scrollHeight\<close> or a pixel value.\<close>

datatype max_height = ScrollHeight | Px nat

record item_view =
  aria_expanded :: bool
  question_class :: string
  question_text :: string
  rect1_class :: string
  rect2_class :: string
  panel_max_height :: max_height
  panel_opacity :: nat
  answer_text :: string

text \<open>\<open>`${isOpen && "x"}`\<close>: JavaScript's \<open>false && "x"\<close> is \<open>false\<close>, which the template literal prints.\<close>

definition and_class :: "bool \<Rightarrow> string \<Rightarrow> string" where
  "and_class b c = (if b then c else ''false'')"

text \<open>What \<open>FaqItem\<close> renders for an item in state \<open>isOpen\<close> (lines 79--131).\<close>

definition faq_item_view :: "faq_item \<Rightarrow> bool \<Rightarrow> item_view" where
  "faq_item_view it is_open =
     \<lparr>aria_expanded = is_open,
      question_class = ''flex-1 text-base-content '' @ (if is_open then ''text-primary'' else ''''),
      question_text = question it,
      rect1_class = ''transform origin-center transition duration-200 ease-out '' @ and_class is_open ''rotate-180'',
      rect2_class = ''transform origin-center rotate-90 transition duration-200 ease-out ''
                    @ and_class is_open ''rotate-180 hidden'',
      panel_max_height = (if is_open then ScrollHeight else Px 0),
      panel_opacity = (if is_open then 1 else 0),
      answer_text = answer it\<rparr>"

text \<open>The page: \<open>useState(false)\<close> for every item, and \<open>faqList.map\<close> rendering them in order.\<close>

definition faq_init :: "bool list" where
  "faq_init = replicate (length faq_list) False"

definition faq_view :: "bool list \<Rightarrow> item_view list" where
  "faq_view st = map2 faq_item_view faq_list st"

text \<open>A click on the button of item \<open>i\<close>: \<open>setIsOpen(!isOpen)\<close> on that item only; there is no button past the last item.\<close>

definition faq_click :: "nat \<Rightarrow> bool list \<Rightarrow> bool list" where
  "faq_click i st = (if i < length st then st[i := \<not> st ! i] else st)"

text \<open>What a consistent rendering of an item means: panel and highlight follow \<open>aria-expanded\<close>.\<close>

definition view_ok :: "item_view \<Rightarrow> bool" where
  "view_ok v \<longleftrightarrow>
     panel_opacity v = (if aria_expanded v then 1 else 0)
     \<and> panel_max_height v = (if aria_expanded v then ScrollHeight else Px 0)
     \<and> (aria_expanded v \<longleftrightarrow> question_class v = ''flex-1 text-base-content text-primary'')"

fun faq_clicks :: "nat list \<Rightarrow> bool list \<Rightarrow> bool list" where
  "faq_clicks [] st = st"
| "faq_clicks (i # is) st = faq_clicks is (faq_click i st)"


section \<open>Lemmas on the accordion\<close>

lemma length_faq_list [simp]: "length faq_list = 4"
  by (simp add: faq_list_def)

lemma length_faq_click [simp]: "length (faq_click i st) = length st"
  by (simp add: faq_click_def)

lemma length_faq_clicks [simp]: "length (faq_clicks cs st) = length st"
  by (induction cs arbitrary: st) simp_all

lemma faq_click_nth:
  "k < length st \<Longrightarrow> faq_click i st ! k = (if k = i then \<not> st ! k else st ! k)"
  by (simp add: faq_click_def nth_list_update)

lemma faq_clicks_nth:
  "k < length st \<Longrightarrow> faq_clicks cs st ! k = (if odd (count_list cs k) then \<not> st ! k else st ! k)"
  by (induction cs arbitrary: st) (auto simp: faq_click_nth)

lemma faq_view_nth:
  "length st = length faq_list \<Longrightarrow> k < length faq_list \<Longrightarrow>
   faq_view st ! k = faq_item_view (faq_list ! k) (st ! k)"
  by (simp add: faq_view_def)

lemma view_ok_item: "view_ok (faq_item_view it b)"
  by (simp add: view_ok_def faq_item_view_def)

lemma faq_item_view_texts [simp]:
  "question_text (faq_item_view it b) = question it" "answer_text (faq_item_view it b) = answer it"
  by (simp_all add: faq_item_view_def)

lemma map2_item_view_texts:
  "length st = length its \<Longrightarrow>
   map question_text (map2 faq_item_view its st) = map question its \<and>
   map answer_text (map2 faq_item_view its st) = map answer its \<and>
   list_all view_ok (map2 faq_item_view its st)"
  by (induction st its rule: list_induct2) (simp_all add: view_ok_item)


section \<open>Properties of the accordion\<close>

text \<open>
  Clicking an item's button twice restores the page's state.
\<close>

lemma faq_click_twice: "faq_click i (faq_click i st) = st"
  by (simp add: faq_click_def)

text \<open>
  C28: after any sequence of clicks from the initial page, an item is open exactly when its button was clicked an odd number of times; the order of the clicks does not matter.
\<close>

theorem faq_clicks_parity:
  assumes "k < length faq_list"
  shows "faq_clicks cs faq_init ! k = odd (count_list cs k)"
  using assms by (simp add: faq_clicks_nth faq_init_def)

text \<open>
  C29: in every state the page reaches, it renders the four entries of \<open>faqList\<close> in order, and each item shows its panel (full height, opacity 1) and highlights its question exactly when its button reports \<open>aria-expanded\<close>.
\<close>

theorem faq_view_consistent:
  "length (faq_view (faq_clicks cs faq_init)) = length faq_list
   \<and> map question_text (faq_view (faq_clicks cs faq_init)) = map question faq_list
   \<and> map answer_text (faq_view (faq_clicks cs faq_init)) = map answer faq_list
   \<and> list_all view_ok (faq_view (faq_clicks cs faq_init))"
proof -
  have len: "length (faq_clicks cs faq_init) = length faq_list" by (simp add: faq_init_def)
  then show ?thesis
    using map2_item_view_texts [OF len] by (simp add: faq_view_def)
qed

text \<open>
  C30: after any sequence of clicks from the initial page, the icon bars of item \<open>k\<close> carry \<open>rotate-180\<close> (and \<open>rotate-180 hidden\<close> on the second bar) when the item was clicked an odd number of times, and otherwise the class \<open>false\<close>: \<open>`${isOpen && "rotate-180"}`\<close> prints \<open>false\<close> for every closed item, the initial page included (FAQ.tsx lines 104--106 and 113--115).
\<close>

theorem faq_icon_classes:
  assumes "k < length faq_list"
  shows "rect1_class (faq_view (faq_clicks cs faq_init) ! k)
           = ''transform origin-center transition duration-200 ease-out ''
             @ (if odd (count_list cs k) then ''rotate-180'' else ''false'')
         \<and> rect2_class (faq_view (faq_clicks cs faq_init) ! k)
           = ''transform origin-center rotate-90 transition duration-200 ease-out ''
             @ (if odd (count_list cs k) then ''rotate-180 hidden'' else ''false'')"
proof -
  have len: "length (faq_clicks cs faq_init) = length faq_list" by (simp add: faq_init_def)
  have st: "faq_clicks cs faq_init ! k = odd (count_list cs k)"
    using assms by (simp add: faq_clicks_nth faq_init_def)
  show ?thesis
    using faq_view_nth [OF len assms] st by (simp add: faq_item_view_def and_class_def)
qed

theorem faq_clicks_parity_witness:
  "2 < length faq_list \<and> faq_clicks [2, 0, 2, 2] faq_init ! 2 = odd (count_list [2, 0, 2, 2::nat] 2) \<and>
   faq_clicks [2, 0, 2, 2] faq_init ! 2 = True"
proof -
  have h: "2 < length faq_list" by simp
  show ?thesis using h faq_clicks_parity [OF h, of "[2, 0, 2, 2]"] by simp
qed

theorem faq_icon_classes_witness:
  "1 < length faq_list
   \<and> rect1_class (faq_view (faq_clicks [] faq_init) ! 1)
       = ''transform origin-center transition duration-200 ease-out false''
   \<and> rect2_class (faq_view (faq_clicks [1, 3, 1] faq_init) ! 3)
       = ''transform origin-center rotate-90 transition duration-200 ease-out rotate-180 hidden''"
proof -
  have h1: "1 < length faq_list" by simp
  have h3: "3 < length faq_list" by simp
  show ?thesis
    using faq_icon_classes [OF h1, of "[]"] faq_icon_classes [OF h3, of "[1, 3, 1]"] by simp
qed

end
