(* ===== verification/Spec2Isabelle.thy ===== *)
theory Spec2Isabelle
  imports Route Orchestrator Faq
begin

text \<open>
  \<^bold>\<open>A verification library for kdp-niche's data collection endpoint and FAQ.\<close>

  \<^bold>\<open>The program.\<close> \<^verbatim>\<open>src/app/api/amazon/collect/route.ts\<close> has two
  authenticated handlers. \<open>POST\<close> validates the body with the zod schema
  \<open>collectRequestSchema\<close>, then awaits the data service's
  \<open>collectBooksViaApi\<close> or \<open>collectBooksViaScraping\<close>, which creates a
  collection job in the \<^verbatim>\<open>data_collection_jobs\<close> table, runs one of two
  acquisition strategies against the marketplace and records the outcome in the
  job; the handler answers with the job and the number of books. \<open>GET\<close> reads
  one job by its id and answers with a camelCase view of the row. The data
  service, the strategies and the table's writer live in \<^verbatim>\<open>@/libs\<close>, outside
  \<^verbatim>\<open>src/\<close>; they are modelled from the spec (sections 3--5). \<^verbatim>\<open>src/components/FAQ.tsx\<close>
  is an accordion whose items each keep an open flag;
  \<^verbatim>\<open>src/components/Hero.tsx\<close> is static markup.

  \<^bold>\<open>The theories.\<close>
  \<^item> \<open>Prelude\<close>: the \<open>model_simps\<close> collection used to evaluate witnesses,
    the decimal rendering \<open>show_nat\<close> of template literals and its inverse
    \<open>parse_nat\<close> (round trip, hence injective: job ids are \<open>show_nat\<close> of a counter).
  \<^item> \<open>Json\<close>: JSON values (objects as association lists where a later key
    wins, as in \<open>JSON.parse\<close>) and responses (status and body).
  \<^item> \<open>Validation\<close>: \<open>collectRequestSchema\<close> and zod's \<open>safeParse\<close>
    (route.ts 7--11): \<open>keywords_schema\<close>, \<open>category_schema\<close>,
    \<open>method_schema\<close>, \<open>safe_parse\<close>, with issue codes, paths and messages.
  \<^item> \<open>Collectors\<close>: the two strategies as functions from the marketplace's
    answer (an input: the outside world) to records or an error of the spec's
    taxonomy, and \<open>collect\<close>, the dispatch of route.ts 48--51.
  \<^item> \<open>JobStore\<close>: the table as a list of \<open>job\<close> rows (the columns GET reads
    at route.ts 114--126) with an id counter, a clock and an availability flag;
    \<open>store_create\<close>, \<open>store_get\<close>, \<open>store_update\<close> (spec 4.2) in state-passing
    style returning \<open>store_error + 'a\<close>; the lifecycle order on
    \<open>job_status\<close> (a type class instance of \<open>order\<close>); the invariant
    \<open>store_wf\<close>; the abstraction \<open>job_map\<close> to a map from ids to rows.
  \<^item> \<open>Service\<close>: the orchestrator \<open>collect_books\<close> (spec 4.3): create, mark
    running, run the strategy while the call's latency passes, mark completed or
    failed; the abstract specification \<open>expected_job\<close> of one run.
  \<^item> \<open>Lifecycle\<close>: concurrency (spec 5) as the inductive step relation
    \<open>sys_step\<close> (any accepted store operation by any request, clock ticks,
    outages), the reachable stores \<open>reach\<close>, runs and the status history of a job.
  \<^item> \<open>Orchestrator\<close>: the same orchestrator as a small-step program
    (\<open>orch_next\<close>, one store call per step, the strategy's network call as its
    suspension point) interleaved with any step of other requests, ticks and
    outages that leaves its job alone (\<open>osys_step\<close>, rely condition \<open>rely_ok\<close>).
  \<^item> \<open>Route\<close>: \<open>post_collect\<close> and \<open>get_status\<close>, the two handlers with
    every early return and the \<open>catch\<close> blocks as branches; authentication,
    \<open>req.json()\<close> and the query parameter are inputs.
  \<^item> \<open>Faq\<close>: \<open>faq_list\<close>, \<open>faq_item_view\<close> (what \<open>FaqItem\<close> renders),
    the page state as the list of the items' flags, \<open>faq_click\<close>, \<open>faq_view\<close>.
  \<^item> this theory: properties that span the handlers, the orchestrator and the lifecycle.

  \<^bold>\<open>What is shown.\<close> The schema accepts exactly the documented bodies.
  The store keeps ids distinct and rows well formed, rejects backward
  transitions without change, treats duplicate transitions as no-ops, and
  refines a map; of two racing terminal updates of a running job the first wins
  and the second is rejected, and updates of different jobs commute. One
  collection returns and persists exactly the row of \<open>expected_job\<close>: an
  empty result is a completed job with count 0, a rate limit a failed job
  carrying the cause, an unreachable database no job and no strategy run. In any
  interleaving of requests a job's status history is a prefix of pending,
  running, completed/failed, no job is lost, terminal jobs never change, and the
  synchronous orchestrator is one such interleaving. Every reachable store holds
  exactly one row per id the counter has issued, so GET finds every issued job
  while the database is up, and along any infinite run each job's status
  changes only finitely often. Interleaved with other requests, ticks and
  outages, the orchestrator's report is always true of the store: a reported
  job is the stored terminal row, and a store error after the job was created is
  reported and leaves the job pending or running. The handlers answer 401, 400,
  404 and 500 where the code does (500 also when GET's second
  \<open>createClient()\<close> throws); each POST creates at most one job; POST followed by
  GET returns the same terminal row, and a repeated GET of a terminal job is
  stable under any later steps. On the FAQ page each item is open exactly when
  its button was clicked an odd number of times, and every reachable page
  renders consistently.

  \<^bold>\<open>Findings the theorems make precise.\<close> POST answers 200 with
  \<open>success: true\<close> and "Successfully collected 0 books" for a job whose
  collection failed; GET answers 404, not 500, when the database cannot be
  reached, and has no separate answer for a malformed id; in every state of the
  FAQ page each closed item's icon bars receive the class \<open>false\<close>. When the database fails during the
  strategy's network call, POST answers 500 without the job's id while the job
  stays running in the table, and nothing finishes it.

  \<^bold>\<open>Bounds and termination.\<close> No loop of the program runs unboundedly:
  every definition is structural (\<open>fun\<close>/\<open>primrec\<close> or non-recursive), and
  \<open>show_nat\<close> terminates by the measure \<open>n\<close> (\<open>n div 10 < n\<close>), so no fuel is
  needed. Counts and timestamps are naturals: the clock only moves forward.
  The system as a whole runs forever, so its termination property is per job:
  along any infinite run of \<open>sys_step\<close> each job's status is eventually constant
  (Lifecycle, measure \<open>status_rank\<close>: absent 3, pending 2, running 1, terminal 0).
  One POST appends at most one row, advances the id counter by at most one and
  the clock by at most the marketplace's \<open>latency\<close> (Route); the model has no
  fixed-width integers, since JavaScript's numbers hold these counts exactly.

  \<^bold>\<open>Not modelled.\<close> \<^verbatim>\<open>Hero.tsx\<close>: a heading, a paragraph, the
  \<open>ButtonLead\<close> component (not part of \<^verbatim>\<open>src/\<close>) and an image, with no
  state, input, branch or handler, so a model would only restate the JSX. The
  network and HTML parsing inside the strategies (code in \<^verbatim>\<open>@/libs\<close>, outside
  \<^verbatim>\<open>src/\<close>, and the spec fixes only their outcomes: the marketplace's answer is an
  input); Supabase's auth internals (the auth result is an input); timestamps are
  clock values, not ISO strings; zod issue fields beyond code, path and message;
  \<open>console.error\<close> logging in the two \<open>catch\<close> blocks; the rendering and
  styling of the components beyond the class strings and styles listed.
\<close>

text \<open>A job taken through its whole lifecycle, for the witnesses.\<close>

abbreviation demo_started_job :: job where
  "demo_started_job \<equiv> apply_patch 0 running_patch demo_job"

abbreviation demo_completed_job :: job where
  "demo_completed_job \<equiv> apply_patch 0 (completed_patch 0) demo_started_job"

abbreviation demo_completed :: job_store where
  "demo_completed \<equiv> demo_store1\<lparr>jobs := [demo_completed_job]\<rparr>"

section \<open>Properties across the handlers, the orchestrator and the lifecycle\<close>

lemma job_id_expected_job [simp]: "job_id (expected_job m mk kw cat i t) = i"
  by (cases "collect m mk kw cat") (simp_all add: expected_job_def Let_def new_job_def)

text \<open>
  C1: POST then GET. After an authenticated POST with a valid body on a
  reachable database, the job POST returns is terminal, and a GET for its id (by
  any user) answers 200 with the public view of that same row.
\<close>

theorem post_then_get:
  assumes "safe_parse b = Inr req" and "store_wf s" and "online s"
  shows "\<exists>s' j. post_collect (Inr (Some u)) (Inr b) mk s =
             (success_response j (outcome_books (collect (req_method req) mk (req_keywords req) (req_category req))), s')
           \<and> terminal (status j)
           \<and> get_status (Inr (Some u')) (Some (job_id j)) (Inr ()) s' = json_response (JObj [(''job'', job_view_json j)]) 200"
proof -
  let ?j = "expected_job (req_method req) mk (req_keywords req) (req_category req) (show_nat (next_seq s)) (now s)"
  obtain s' where run: "post_collect (Inr (Some u)) (Inr b) mk s =
      (success_response ?j (outcome_books (collect (req_method req) mk (req_keywords req) (req_category req))), s')"
    and m: "job_map s' = (job_map s)(show_nat (next_seq s) \<mapsto> ?j)" and wf: "store_wf s'" and on: "online s'"
    using post_collect_valid_run [OF assms, of u mk] by blast
  have "lookup_job (job_id ?j) s' = Some ?j" using m by (simp add: lookup_job_job_map)
  then have "get_status (Inr (Some u')) (Some (job_id ?j)) (Inr ()) s' = json_response (JObj [(''job'', job_view_json ?j)]) 200"
    using wf on by (simp add: get_status_def select_single_lookup)
  with run terminal_expected_job show ?thesis by blast
qed

text \<open>
  C13: polling a terminal job is stable: whatever other requests, clock ticks and
  outages happen in between, a GET for a job that was completed or failed gives
  the same response as before, as long as the database is reachable at both reads.
\<close>

theorem get_terminal_stable:
  assumes "reach s" and "sys_step\<^sup>*\<^sup>* s t" and "online s" and "online t"
    and "job_map s i = Some j" and "terminal (status j)"
  shows "get_status au (Some i) cl t = get_status au (Some i) cl s"
proof -
  have wf: "store_wf s" "store_wf t"
    using assms(1,2) reach_store_wf reach_steps by blast+
  have "job_map t i = Some j" by (rule steps_terminal [OF assms(2,5,6)])
  then have "select_single i t = select_single i s"
    using wf assms(3-5) by (simp add: select_single_lookup lookup_job_job_map)
  then show ?thesis by (cases au) (auto simp: get_status_def split: option.splits sum.splits)
qed

text \<open>
  C10: no job is silently dropped: in every reachable store, while the database is up, GET for any id the store has issued answers 200 with that job's row, whatever requests, ticks and outages came before.
\<close>

theorem get_status_issued_found:
  assumes "reach s" and "n < next_seq s" and "online s"
  shows "\<exists>j. lookup_job (show_nat n) s = Some j
           \<and> get_status (Inr (Some u)) (Some (show_nat n)) (Inr ()) s = json_response (JObj [(''job'', job_view_json j)]) 200"
proof -
  have "show_nat n \<in> set (map job_id (jobs s))" using reach_ids [OF assms(1)] assms(2) by simp
  then have "lookup_job (show_nat n) s \<noteq> None" by (auto simp: lookup_job_def find_None_iff)
  then obtain j where l: "lookup_job (show_nat n) s = Some j" by blast
  have "select_single (show_nat n) s = Inr j"
    using select_single_lookup [OF reach_store_wf [OF assms(1)] assms(3)] l by simp
  then show ?thesis using l by (simp add: get_status_def)
qed

lemma demo_start_step:
  "store_update ''0'' running_patch demo_store1 =
     (Inr demo_started_job, demo_store1\<lparr>jobs := [demo_started_job]\<rparr>)"
  by (simp add: store_update_def lookup_job_def replace_job_def patch_allowed_def running_patch_def
      new_job_def Let_def)

lemma demo_complete_step:
  "store_update ''0'' (completed_patch 0) (demo_store1\<lparr>jobs := [demo_started_job]\<rparr>) =
     (Inr demo_completed_job, demo_completed)"
  by (simp add: store_update_def lookup_job_def replace_job_def patch_allowed_def running_patch_def
      completed_patch_def new_job_def terminal_def Let_def)

lemma reach_demo_completed: "reach demo_completed"
  using reach.step [OF reach.step [OF reach_demo_store1 sys_step.update [OF demo_start_step]]
                       sys_step.update [OF demo_complete_step]] .

theorem post_then_get_witness:
  "safe_parse (request_json \<lparr>req_keywords = ''gardening'', req_category = None, req_method = Api\<rparr>)
     = Inr \<lparr>req_keywords = ''gardening'', req_category = None, req_method = Api\<rparr> \<and>
   store_wf empty_store \<and> online empty_store \<and>
   (\<exists>s' j. post_collect (Inr (Some ''user-1''))
             (Inr (request_json \<lparr>req_keywords = ''gardening'', req_category = None, req_method = Api\<rparr>))
             demo_market empty_store = (success_response j [], s')
           \<and> terminal (status j)
           \<and> get_status (Inr (Some ''user-2'')) (Some (job_id j)) (Inr ()) s'
               = json_response (JObj [(''job'', job_view_json j)]) 200)"
proof -
  have h: "safe_parse (request_json \<lparr>req_keywords = ''gardening'', req_category = None, req_method = Api\<rparr>)
     = Inr \<lparr>req_keywords = ''gardening'', req_category = None, req_method = Api\<rparr>"
    by (simp add: safe_parse_def request_json_def schema_defs)
  have o: "online empty_store" by (simp add: empty_store_def)
  show ?thesis
    using h o store_wf_empty post_then_get [OF h store_wf_empty o, of "''user-1''" demo_market "''user-2''"]
    by (simp add: outcome_books_def api_collect_def)
qed

theorem get_terminal_stable_witness:
  "reach demo_completed \<and> sys_step\<^sup>*\<^sup>* demo_completed (store_tick 5 demo_completed) \<and>
   online demo_completed \<and> online (store_tick 5 demo_completed) \<and>
   job_map demo_completed ''0'' = Some demo_completed_job \<and> terminal (status demo_completed_job) \<and>
   get_status (Inr (Some ''user-1'')) (Some ''0'') (Inr ()) (store_tick 5 demo_completed)
     = get_status (Inr (Some ''user-1'')) (Some ''0'') (Inr ()) demo_completed"
proof -
  have h: "reach demo_completed" "sys_step\<^sup>*\<^sup>* demo_completed (store_tick 5 demo_completed)"
    "online demo_completed" "online (store_tick 5 demo_completed)"
    "job_map demo_completed ''0'' = Some demo_completed_job" "terminal (status demo_completed_job)"
    by (rule reach_demo_completed)
       (use sys_step.tick in \<open>auto simp: job_map_def new_job_def completed_patch_def terminal_def\<close>)
  show ?thesis using h get_terminal_stable [OF h] by blast
qed

theorem get_status_issued_found_witness:
  "reach demo_store1 \<and> 0 < next_seq demo_store1 \<and> online demo_store1 \<and>
   get_status (Inr (Some ''user-1'')) (Some ''0'') (Inr ()) demo_store1
     = json_response (JObj [(''job'', job_view_json demo_job)]) 200"
proof -
  have h: "reach demo_store1" "0 < next_seq demo_store1" "online demo_store1"
    by (rule reach_demo_store1) simp_all
  show ?thesis using h get_status_issued_found [OF h, of "''user-1''"]
    by (simp add: show_nat_small lookup_job_def new_job_def)
qed

end
